theory Spec2Isabelle
  imports Main
begin

section \<open>JavaScript strings\<close>

text \<open>
  The composer (\<^verbatim>\<open>src/components/homepage/SnapComposer.tsx\<close>) works on JavaScript
  strings. A string is modelled as a \<^typ>\<open>string\<close>, one \<^typ>\<open>char\<close> per code unit;
  the code units \<open>0..255\<close> are represented. The classes below are those of the regular
  expressions of the source, which are ASCII classes (no \<^verbatim>\<open>u\<close> or \<^verbatim>\<open>i\<close> flag).
\<close>

definition is_word_char :: "char \<Rightarrow> bool" where
  \<comment> \<open>the class \<^verbatim>\<open>\w\<close>, that is \<^verbatim>\<open>[A-Za-z0-9_]\<close>\<close>
  "is_word_char c =
     (let n = (of_char c :: nat) in
        (48 \<le> n \<and> n \<le> 57) \<or> (65 \<le> n \<and> n \<le> 90) \<or> (97 \<le> n \<and> n \<le> 122) \<or> n = 95)"

definition is_alnum_char :: "char \<Rightarrow> bool" where
  \<comment> \<open>the class \<^verbatim>\<open>[a-zA-Z0-9]\<close>\<close>
  "is_alnum_char c =
     (let n = (of_char c :: nat) in
        (48 \<le> n \<and> n \<le> 57) \<or> (65 \<le> n \<and> n \<le> 90) \<or> (97 \<le> n \<and> n \<le> 122))"

definition is_white_space :: "char \<Rightarrow> bool" where
  \<comment> \<open>WhiteSpace and LineTerminator below 256: TAB, LF, VT, FF, CR, SP, NBSP\<close>
  "is_white_space c =
     (let n = (of_char c :: nat) in (9 \<le> n \<and> n \<le> 13) \<or> n = 32 \<or> n = 160)"

definition toLowerCase_char :: "char \<Rightarrow> char" where
  "toLowerCase_char c =
     (let n = (of_char c :: nat) in
        if (65 \<le> n \<and> n \<le> 90) \<or> (192 \<le> n \<and> n \<le> 222 \<and> n \<noteq> 215)
        then char_of (n + 32) else c)"

definition toLowerCase :: "string \<Rightarrow> string" where
  "toLowerCase s = map toLowerCase_char s"

definition remove_non_alnum :: "string \<Rightarrow> string" where
  \<comment> \<open>\<^verbatim>\<open>.replace(/[^a-zA-Z0-9]/g, "")\<close>\<close>
  "remove_non_alnum s = filter is_alnum_char s"

definition trim :: "string \<Rightarrow> string" where
  "trim s = rev (dropWhile is_white_space (rev (dropWhile is_white_space s)))"

definition truthy :: "string option \<Rightarrow> bool" where
  \<comment> \<open>a value that is \<^verbatim>\<open>null\<close>, \<^verbatim>\<open>undefined\<close> or the empty string is falsy\<close>
  "truthy v = (case v of None \<Rightarrow> False | Some s \<Rightarrow> s \<noteq> [])"

definition or_empty :: "string option \<Rightarrow> string" where
  \<comment> \<open>\<^verbatim>\<open>v || ''\<close>\<close>
  "or_empty v = (case v of None \<Rightarrow> [] | Some s \<Rightarrow> s)"

fun split_on :: "char \<Rightarrow> string \<Rightarrow> string list" where
  \<comment> \<open>\<^verbatim>\<open>s.split(c)\<close> for a one-character separator; the result is never empty\<close>
  "split_on sep [] = [[]]"
| "split_on sep (c # cs) =
     (if c = sep then [] # split_on sep cs
      else (case split_on sep cs of [] \<Rightarrow> [[c]] | p # ps \<Rightarrow> (c # p) # ps))"

fun join_with :: "string \<Rightarrow> string list \<Rightarrow> string" where
  \<comment> \<open>\<^verbatim>\<open>xs.join(sep)\<close>\<close>
  "join_with sep [] = []"
| "join_with sep [x] = x"
| "join_with sep (x # y # ys) = x @ sep @ join_with sep (y # ys)"

fun set_add :: "'a list \<Rightarrow> 'a \<Rightarrow> 'a list" where
  \<comment> \<open>\<^verbatim>\<open>Set.prototype.add\<close>: a set keeps its elements in insertion order\<close>
  "set_add acc x = (if x \<in> set acc then acc else acc @ [x])"

definition spread_new_Set :: "'a list \<Rightarrow> 'a list" where
  \<comment> \<open>\<^verbatim>\<open>[...new Set(xs)]\<close>\<close>
  "spread_new_Set xs = foldl set_add [] xs"

fun non_null :: "'a option list \<Rightarrow> 'a list" where
  \<comment> \<open>\<^verbatim>\<open>xs.filter(x => x !== null)\<close>, the values of what is left\<close>
  "non_null [] = []"
| "non_null (x # xs) = (case x of None \<Rightarrow> non_null xs | Some v \<Rightarrow> v # non_null xs)"

section \<open>Hashtags\<close>

text \<open>
  \<^verbatim>\<open>text.match(/#(\w+)/g) || []\<close> gives the successive leftmost matches of the
  expression, each match with its greedy run of word characters; the search resumes after
  the match. At a \<^verbatim>\<open>#\<close> that no word character follows there is no match and the
  search moves on by one character. \<^verbatim>\<open>hashtag.slice(1)\<close> drops the \<^verbatim>\<open>#\<close>.
\<close>

function extractHashtags :: "string \<Rightarrow> string list" where
  "extractHashtags [] = []"
| "extractHashtags (c # cs) =
     (if c = CHR ''#'' \<and> takeWhile is_word_char cs \<noteq> []
      then takeWhile is_word_char cs # extractHashtags (dropWhile is_word_char cs)
      else extractHashtags cs)"
  by pat_completeness auto
termination
  by (relation "measure length") (auto simp: length_dropWhile_le less_Suc_eq_le)

section \<open>The permlink: \<^verbatim>\<open>Date.prototype.toISOString\<close>\<close>

text \<open>
  \<^verbatim>\<open>new Date()\<close> holds a time value: the milliseconds since 1970-01-01T00:00:00Z, an
  integer. \<^verbatim>\<open>toISOString\<close> renders it in UTC as \<^verbatim>\<open>YYYY-MM-DDTHH:mm:ss.sssZ\<close>, with
  the year as a sign and six digits outside \<open>0..9999\<close>. The calendar date of a day number
  is computed over the 400-year cycle of the proleptic Gregorian calendar. The time value
  of \<^verbatim>\<open>new Date()\<close> is never \<^verbatim>\<open>NaN\<close>, so the \<^verbatim>\<open>RangeError\<close> of \<^verbatim>\<open>toISOString\<close> has
  no branch here.
\<close>

definition msPerDay :: int where
  "msPerDay = 86400000"

definition Day :: "int \<Rightarrow> int" where
  "Day t = t div msPerDay"

definition date_from_day :: "int \<Rightarrow> int \<times> nat \<times> nat" where
  \<comment> \<open>year, month \<open>1..12\<close> and day of the month \<open>1..31\<close> of a day number\<close>
  "date_from_day d =
     (let z = d + 719468;
          era = z div 146097;
          doe = z - era * 146097;
          yoe = (doe - doe div 1460 + doe div 36524 - doe div 146096) div 365;
          doy = doe - (365 * yoe + yoe div 4 - yoe div 100);
          mp = (5 * doy + 2) div 153;
          dd = doy - (153 * mp + 2) div 5 + 1;
          m = (if mp < 10 then mp + 3 else mp - 9);
          y = yoe + era * 400 + (if m \<le> 2 then 1 else 0)
      in (y, nat m, nat dd))"

definition YearFromTime :: "int \<Rightarrow> int" where
  "YearFromTime t = fst (date_from_day (Day t))"

definition MonthFromTime :: "int \<Rightarrow> nat" where
  "MonthFromTime t = fst (snd (date_from_day (Day t)))"

definition DateFromTime :: "int \<Rightarrow> nat" where
  "DateFromTime t = snd (snd (date_from_day (Day t)))"

definition HourFromTime :: "int \<Rightarrow> nat" where
  "HourFromTime t = nat ((t div 3600000) mod 24)"

definition MinFromTime :: "int \<Rightarrow> nat" where
  "MinFromTime t = nat ((t div 60000) mod 60)"

definition SecFromTime :: "int \<Rightarrow> nat" where
  "SecFromTime t = nat ((t div 1000) mod 60)"

definition msFromTime :: "int \<Rightarrow> nat" where
  "msFromTime t = nat (t mod 1000)"

definition digit_char :: "nat \<Rightarrow> char" where
  "digit_char n = char_of (48 + n mod 10)"

fun decimal :: "nat \<Rightarrow> string" where
  "decimal n = (if n < 10 then [digit_char n] else decimal (n div 10) @ [digit_char n])"

definition zero_pad :: "nat \<Rightarrow> nat \<Rightarrow> string" where
  \<comment> \<open>the decimal digits of \<open>n\<close>, padded with zeros on the left to \<open>k\<close> characters\<close>
  "zero_pad k n = replicate (k - length (decimal n)) CHR ''0'' @ decimal n"

definition year_string :: "int \<Rightarrow> string" where
  "year_string y =
     (if 0 \<le> y \<and> y \<le> 9999 then zero_pad 4 (nat y)
      else (if y < 0 then ''-'' else ''+'') @ zero_pad 6 (nat \<bar>y\<bar>))"

definition toISOString :: "int \<Rightarrow> string" where
  "toISOString t =
     year_string (YearFromTime t) @ ''-'' @ zero_pad 2 (MonthFromTime t) @ ''-''
       @ zero_pad 2 (DateFromTime t) @ ''T'' @ zero_pad 2 (HourFromTime t) @ '':''
       @ zero_pad 2 (MinFromTime t) @ '':'' @ zero_pad 2 (SecFromTime t) @ ''.''
       @ zero_pad 3 (msFromTime t) @ ''Z''"

definition make_permlink :: "int \<Rightarrow> string" where
  \<comment> \<open>\<^verbatim>\<open>new Date().toISOString().replace(/[^a-zA-Z0-9]/g, "").toLowerCase()\<close>
     at the time value \<open>now\<close>\<close>
  "make_permlink now = toLowerCase (remove_non_alnum (toISOString now))"

section \<open>Files, promises and effects\<close>

record dom_file =
  file_name :: string
  file_type :: string
  file_bytes :: string

type_synonym blob = string

type_synonym error = string

text \<open>
  A settled promise is \<open>Inl\<close> of the rejection (the text of the error) or \<open>Inr\<close> of the
  value. A promise that may stay pending is an option of that.
\<close>

type_synonym 'a settled = "error + 'a"

definition settle :: "'a settled \<Rightarrow> 'a settled option \<Rightarrow> 'a settled option" where
  \<comment> \<open>\<^verbatim>\<open>resolve\<close> and \<^verbatim>\<open>reject\<close> act on a pending promise only\<close>
  "settle r p = (case p of None \<Rightarrow> Some r | Some q \<Rightarrow> Some q)"

record response =
  status :: nat
  statusText :: string
  body_text :: "string settled"

definition response_ok :: "response \<Rightarrow> bool" where
  "response_ok r = (200 \<le> status r \<and> status r \<le> 299)"

record metadata =
  app :: string
  tags :: "string list"
  images_meta :: "string list"

record comment_op =
  parent_author :: string
  parent_permlink :: string
  author :: string
  permlink :: string
  title :: string
  body :: string
  json_metadata :: metadata

record beneficiary =
  account :: string
  weight :: nat

record comment_options_op =
  opt_author :: string
  opt_permlink :: string
  max_accepted_payout :: string
  percent_hbd :: nat
  allow_votes :: bool
  allow_curation_rewards :: bool
  extensions :: "(nat \<times> beneficiary list) list"

datatype operation = Comment comment_op | CommentOptions comment_options_op

datatype key_type = Posting | Active | Memo

record new_comment =
  nc_author :: string
  nc_permlink :: string
  nc_body :: string

datatype effect =
    Alert string
  | CreateObjectURL dom_file
  | VideoLoad
  | SetCurrentTime nat
  | DrawImage
  | RevokeObjectURL
  | GetFileSignature dom_file
  | UploadImage dom_file "nat option"
  | FetchIpfsAdd blob
  | FetchSetThumbnail string string string
  | TusUploadStart dom_file string string
  | GetLastSnapsContainer
  | SignAndBroadcastTx "operation list" key_type
  | AiohaComment string string string string string metadata
  | OnNewComment new_comment
  | OnClose

section \<open>The state of the composer\<close>

text \<open>
  The state of the component is the value of the text area (which is mounted whenever a
  handler runs) and the values of its \<^verbatim>\<open>useState\<close> hooks. A handler reads the state of
  the render it was created in and returns the state after its setters.
\<close>

record gif =
  gif_id :: string
  downsized_medium_url :: string

record composer_state =
  draft_text :: string
  images :: "dom_file list"
  selectedGif :: "gif option"
  selectedVideo :: "dom_file option"
  videoUploadProgress :: nat
  videoEmbedUrl :: "string option"
  thumbnailProcessing :: bool
  isLoading :: bool
  uploadProgress :: "nat list"

section \<open>\<^verbatim>\<open>extractThumbnail\<close>\<close>

text \<open>
  The promise of \<^verbatim>\<open>extractThumbnail\<close> is settled by the listeners of the video
  element. An event \<open>Seeked\<close> carries what the canvas does in its listener: no 2d
  context, or the blob (or \<^verbatim>\<open>null\<close>) that \<^verbatim>\<open>toBlob\<close> passes to its callback.
  The seek offset is in milliseconds.
\<close>

datatype canvas_run = NoContext | ToBlob "blob option"

datatype video_event = LoadedData | Seeked canvas_run | VideoError

record extraction =
  promise :: "blob settled option"
  calls :: "effect list"

fun on_video_event :: "extraction \<Rightarrow> video_event \<Rightarrow> extraction" where
  "on_video_event x LoadedData = x\<lparr>calls := calls x @ [SetCurrentTime 500]\<rparr>"
| "on_video_event x (Seeked NoContext) =
     x\<lparr>promise := settle (Inl ''Failed to get canvas context'') (promise x)\<rparr>"
| "on_video_event x (Seeked (ToBlob b)) =
     x\<lparr>promise :=
         settle (case b of Some blob \<Rightarrow> Inr blob
                   | None \<Rightarrow> Inl ''Failed to create thumbnail blob'') (promise x),
       calls := calls x @ [DrawImage, RevokeObjectURL]\<rparr>"
| "on_video_event x VideoError =
     x\<lparr>promise := settle (Inl ''Failed to load video'') (promise x),
       calls := calls x @ [RevokeObjectURL]\<rparr>"

definition extractThumbnail :: "dom_file \<Rightarrow> video_event list \<Rightarrow> extraction" where
  "extractThumbnail f evs =
     foldl on_video_event \<lparr>promise = None, calls = [CreateObjectURL f, VideoLoad]\<rparr> evs"

section \<open>Publishing the thumbnail\<close>

text \<open>
  \<^verbatim>\<open>JSON.parse\<close> and the constructor \<^verbatim>\<open>URL\<close> belong to the platform: the model takes
  each as a parameter. A parsed JSON value keeps the text of a number as the platform
  prints it; a parsed URL is its list of query parameters, in order.
\<close>

datatype json =
    JNull
  | JBool bool
  | JNum string
  | JStr string
  | JArr "json list"
  | JObj "(string \<times> json) list"

record platform =
  JSON_parse :: "string \<Rightarrow> json settled"
  URL_searchParams :: "string \<Rightarrow> (string \<times> string) list settled"

fun string_of_json :: "json \<Rightarrow> string" where
  \<comment> \<open>the string a template literal makes of a value\<close>
  "string_of_json JNull = ''null''"
| "string_of_json (JBool b) = (if b then ''true'' else ''false'')"
| "string_of_json (JNum n) = n"
| "string_of_json (JStr s) = s"
| "string_of_json (JArr xs) =
     join_with '','' (map (\<lambda>x. if x = JNull then [] else string_of_json x) xs)"
| "string_of_json (JObj kvs) = ''[object Object]''"

definition template_string :: "json option \<Rightarrow> string" where
  "template_string v = (case v of None \<Rightarrow> ''undefined'' | Some j \<Rightarrow> string_of_json j)"

definition get_Hash :: "json \<Rightarrow> json option settled" where
  \<comment> \<open>\<^verbatim>\<open>result.Hash\<close>: a TypeError on \<^verbatim>\<open>null\<close>, \<^verbatim>\<open>undefined\<close> where there is no such
     property\<close>
  "get_Hash result =
     (case result of
        JNull \<Rightarrow> Inl ''TypeError: Cannot read properties of null''
      | JObj kvs \<Rightarrow> Inr (map_of kvs ''Hash'')
      | _ \<Rightarrow> Inr None)"

definition uploadThumbnailToIPFS :: "platform \<Rightarrow> response settled \<Rightarrow> string settled" where
  \<comment> \<open>the second argument is what the request to
     \<^verbatim>\<open>http://65.21.201.94:5002/api/v0/add\<close> comes to\<close>
  "uploadThumbnailToIPFS pf fetched =
     (case fetched of
        Inl e \<Rightarrow> Inl e
      | Inr r \<Rightarrow>
          if \<not> response_ok r
          then Inl (''IPFS upload failed: '' @ decimal (status r) @ '' - '' @ statusText r)
          else (case body_text r of
                  Inl e \<Rightarrow> Inl e
                | Inr responseText \<Rightarrow>
                    (let lines = split_on (CHR 0x0A) (trim responseText);
                         lastLine = last lines
                     in case JSON_parse pf lastLine of
                          Inl e \<Rightarrow> Inl e
                        | Inr result \<Rightarrow>
                            (case get_Hash result of
                               Inl e \<Rightarrow> Inl e
                             | Inr ipfsHash \<Rightarrow>
                                 Inr (''https://ipfs.3speak.tv/ipfs/''
                                        @ template_string ipfsHash)))))"

record thumb_env =
  video_events :: "video_event list"
  signature_result :: "string settled"
  upload_result :: "string settled"
  ipfs_fetch :: "response settled"

definition thumbnail_file :: "dom_file \<Rightarrow> blob \<Rightarrow> dom_file" where
  "thumbnail_file f thumbnailBlob =
     \<lparr>file_name = file_name f @ ''_thumbnail.jpg'', file_type = ''image/jpeg'',
      file_bytes = thumbnailBlob\<rparr>"

definition publish_thumbnail ::
  "platform \<Rightarrow> thumb_env \<Rightarrow> dom_file \<Rightarrow> blob \<Rightarrow> string settled \<times> effect list" where
  \<comment> \<open>the inner \<^verbatim>\<open>try\<close> of \<^verbatim>\<open>extractAndUploadThumbnail\<close>, with the requests it issues\<close>
  "publish_thumbnail pf e f thumbnailBlob =
     (let thumbnailFile = thumbnail_file f thumbnailBlob;
          fallback = uploadThumbnailToIPFS pf (ipfs_fetch e)
      in case signature_result e of
           Inl hiveError \<Rightarrow>
             (fallback, [GetFileSignature thumbnailFile, FetchIpfsAdd thumbnailBlob])
         | Inr signature \<Rightarrow>
             (case upload_result e of
                Inl hiveError \<Rightarrow>
                  (fallback,
                   [GetFileSignature thumbnailFile, UploadImage thumbnailFile None,
                    FetchIpfsAdd thumbnailBlob])
              | Inr imageUrl \<Rightarrow>
                  (Inr imageUrl,
                   [GetFileSignature thumbnailFile, UploadImage thumbnailFile None])))"

definition extractAndUploadThumbnail ::
  "platform \<Rightarrow> thumb_env \<Rightarrow> dom_file \<Rightarrow> string settled option \<times> effect list" where
  "extractAndUploadThumbnail pf e f =
     (let x = extractThumbnail f (video_events e)
      in case promise x of
           None \<Rightarrow> (None, calls x)
         | Some (Inl error) \<Rightarrow> (Some (Inl error), calls x)
         | Some (Inr thumbnailBlob) \<Rightarrow>
             (let (r, reqs) = publish_thumbnail pf e f thumbnailBlob
              in (Some r, calls x @ reqs)))"

section \<open>Uploading the video\<close>

text \<open>
  A session of the resumable upload: the rounded percentages that \<^verbatim>\<open>onProgress\<close>
  stores (it computes them in floating point), the \<^verbatim>\<open>X-Embed-URL\<close> header of each
  response, and how the session ends.
\<close>

datatype tus_end = OnError error | OnSuccess | NeverEnds

record tus_session =
  progress_reports :: "nat list"
  embed_headers :: "string option list"
  tus_end :: tus_end

definition last_embed_header :: "string option list \<Rightarrow> string option" where
  \<comment> \<open>\<^verbatim>\<open>onAfterResponse\<close> keeps the last header that is truthy\<close>
  "last_embed_header hs = foldl (\<lambda>embedUrl url. if truthy url then url else embedUrl) None hs"

definition uploadVideoToThreeSpeak ::
  "string option \<Rightarrow> string option \<Rightarrow> tus_session \<Rightarrow> dom_file \<Rightarrow> composer_state
     \<Rightarrow> string settled option \<times> effect list \<times> composer_state" where
  \<comment> \<open>the first argument is \<^verbatim>\<open>process.env.NEXT_PUBLIC_3SPEAK_API_KEY\<close>, the second the
     logged-in user\<close>
  "uploadVideoToThreeSpeak env_key user ts f s =
     (let apiKey = or_empty env_key
      in if apiKey = [] then (Some (Inl ''3Speak API key not configured''), [], s)
         else
           (let embedUrl = last_embed_header (embed_headers ts);
                s1 = foldl (\<lambda>st pc. st\<lparr>videoUploadProgress := pc\<rparr>) s (progress_reports ts);
                started = [TusUploadStart f (or_empty user) apiKey]
            in case tus_end ts of
                 OnError error \<Rightarrow>
                   (Some (Inl error), started,
                    s1\<lparr>selectedVideo := None, videoUploadProgress := 0\<rparr>)
               | OnSuccess \<Rightarrow>
                   (if truthy embedUrl then Some (Inr (or_empty embedUrl))
                    else Some (Inl ''Failed to get embed URL from server''), started, s1)
               | NeverEnds \<Rightarrow> (None, started, s1)))"

definition extractVideoId :: "platform \<Rightarrow> string \<Rightarrow> string option" where
  \<comment> \<open>\<^verbatim>\<open>null\<close> and \<^verbatim>\<open>undefined\<close> (of \<^verbatim>\<open>parts[1]\<close> out of range) are both \<open>None\<close>\<close>
  "extractVideoId pf embedUrl =
     (case URL_searchParams pf embedUrl of
        Inl error \<Rightarrow> None
      | Inr params \<Rightarrow>
          (let videoParam = map_of params ''v''
           in if truthy videoParam
              then (let parts = split_on CHR ''/'' (or_empty videoParam)
                    in if 1 < length parts then Some (parts ! 1) else None)
              else None))"

definition setVideoThumbnail ::
  "string option \<Rightarrow> response settled \<Rightarrow> string \<Rightarrow> string \<Rightarrow> unit settled \<times> effect list" where
  \<comment> \<open>the second argument is what the request to
     \<^verbatim>\<open>https://embed.3speak.tv/video/<id>/thumbnail\<close> comes to\<close>
  "setVideoThumbnail env_key fetched videoId thumbnailUrl =
     (let apiKey = or_empty env_key
      in if apiKey = [] then (Inl ''3Speak API key not configured'', [])
         else
           (case fetched of
              Inl e \<Rightarrow> Inl e
            | Inr r \<Rightarrow>
                if \<not> response_ok r
                then Inl (''Failed to set thumbnail: '' @ decimal (status r) @ '' - ''
                            @ statusText r)
                else Inr (),
            [FetchSetThumbnail videoId thumbnailUrl apiKey]))"

record video_env =
  api_key :: "string option"
  tus :: tus_session
  thumb :: thumb_env
  thumbnail_fetch :: "response settled"

definition video_selected :: "dom_file \<Rightarrow> composer_state \<Rightarrow> composer_state" where
  \<comment> \<open>lines 253 to 255\<close>
  "video_selected f s =
     s\<lparr>selectedVideo := Some f, videoUploadProgress := 1, thumbnailProcessing := True\<rparr>"

definition handleVideoSelection ::
  "platform \<Rightarrow> video_env \<Rightarrow> string option \<Rightarrow> dom_file \<Rightarrow> composer_state
     \<Rightarrow> (composer_state \<times> effect list) option" where
  \<comment> \<open>\<open>None\<close>: one of the two promises never settles, and neither does
     \<^verbatim>\<open>Promise.allSettled\<close>. The effects of the two pipelines are listed the video's
     first; how they interleave is not modelled.\<close>
  "handleVideoSelection pf e user f s =
     (let s0 = video_selected f s;
          (videoResult, videoEffects, s1) = uploadVideoToThreeSpeak (api_key e) user (tus e) f s0;
          (thumbnailResult, thumbEffects) = extractAndUploadThumbnail pf (thumb e) f
      in case (videoResult, thumbnailResult) of
           (Some (Inr value), Some thumbnail) \<Rightarrow>
             (let s2 = s1\<lparr>videoEmbedUrl := Some value\<rparr>;
                  linked =
                    (case thumbnail of
                       Inr thumbnailUrl \<Rightarrow>
                         (let videoId = extractVideoId pf value
                          in if truthy videoId
                             then snd (setVideoThumbnail (api_key e) (thumbnail_fetch e)
                                         (or_empty videoId) thumbnailUrl)
                             else [])
                     | Inl reason \<Rightarrow> [])
              in Some (s2\<lparr>thumbnailProcessing := False\<rparr>,
                       videoEffects @ thumbEffects @ linked))
         | (Some (Inl reason), Some thumbnail) \<Rightarrow>
             Some (s1\<lparr>selectedVideo := None, videoUploadProgress := 0,
                      thumbnailProcessing := False\<rparr>,
                   videoEffects @ thumbEffects
                     @ [Alert ''Failed to upload video. Please try again.''])
         | _ \<Rightarrow> None)"

section \<open>\<^verbatim>\<open>handleComment\<close>\<close>

text \<open>
  What a run of \<^verbatim>\<open>handleComment\<close> meets outside the component: the time, the
  community tag of the configuration, what signing and uploading the image of each index
  come to, the progress that \<^verbatim>\<open>uploadImage\<close> leaves in the state, the permlink of the
  last container of snaps, and the answer of the ledger (\<open>Inr\<close> of its field
  \<^verbatim>\<open>success\<close>, \<open>Inl\<close> when the call throws).
\<close>

record props =
  pa :: string
  pp :: string
  user :: "string option"

datatype image_result = SignatureFailed error | UploadFailed error | Uploaded string

record comment_env =
  now :: int
  community_tag :: "string option"
  image_results :: "nat \<Rightarrow> image_result"
  reported_progress :: "nat list"
  last_container :: "string settled"
  ledger_response :: "bool settled"

record run =
  final :: composer_state
  effects :: "effect list"
  thrown :: "error option"

fun signature_error :: "image_result \<Rightarrow> error option" where
  "signature_error (SignatureFailed err) = Some err"
| "signature_error (UploadFailed err) = None"
| "signature_error (Uploaded url) = None"

fun uploaded_url :: "image_result \<Rightarrow> string option" where
  \<comment> \<open>the value of the callback of \<^verbatim>\<open>images.map\<close>: the URL, or \<^verbatim>\<open>null\<close> from its
     \<^verbatim>\<open>catch\<close>\<close>
  "uploaded_url (Uploaded url) = Some url"
| "uploaded_url (UploadFailed err) = None"
| "uploaded_url (SignatureFailed err) = None"

definition upload_images ::
  "comment_env \<Rightarrow> dom_file list \<Rightarrow> string option list settled \<times> effect list" where
  \<comment> \<open>\<^verbatim>\<open>await Promise.all(images.map(async (image, index) => ...))\<close>:
     \<^verbatim>\<open>getFileSignature\<close> is outside the \<^verbatim>\<open>try\<close> of the callback, so its failure
     rejects the whole; of several such failures the one of the least index is given\<close>
  "upload_images e imgs =
     (let indexed = enumerate 0 imgs;
          results = map (\<lambda>(index, image). image_results e index) indexed;
          requests =
            map GetFileSignature imgs
              @ concat (map (\<lambda>(index, image).
                               case signature_error (image_results e index) of
                                 None \<Rightarrow> [UploadImage image (Some index)]
                               | Some err \<Rightarrow> []) indexed)
      in (case non_null (map signature_error results) of
            [] \<Rightarrow> Inr (map uploaded_url results)
          | err # errs \<Rightarrow> Inl err,
          requests))"

definition blank_line :: string where
  "blank_line = [CHR 0x0A, CHR 0x0A]"

definition image_line :: "string \<Rightarrow> string" where
  \<comment> \<open>the template \<^verbatim>\<open>![image](${url?.toString() || ''})\<close> for a URL that is a string\<close>
  "image_line url = ''![image]('' @ url @ '')''"

definition image_markup :: "string list \<Rightarrow> string" where
  "image_markup validUrls = join_with [CHR 0x0A] (map image_line validUrls)"

definition compose_body ::
  "comment_env \<Rightarrow> composer_state \<Rightarrow> (string \<times> string list) settled \<times> effect list" where
  \<comment> \<open>lines 313 and 328 to 357: the body and \<^verbatim>\<open>validUrls\<close>\<close>
  "compose_body e s =
     (let body0 = draft_text s;
          body1 = (if truthy (videoEmbedUrl s)
                   then body0 @ blank_line @ or_empty (videoEmbedUrl s) else body0);
          (uploaded, requests) =
            (if images s \<noteq> [] then upload_images e (images s) else (Inr [], []))
      in case uploaded of
           Inl err \<Rightarrow> (Inl err, requests)
         | Inr uploadedImages \<Rightarrow>
             (let validUrls = non_null uploadedImages;
                  body2 = (if validUrls \<noteq> []
                           then body1 @ blank_line @ image_markup validUrls else body1);
                  body3 = (case selectedGif s of
                             Some g \<Rightarrow>
                               body2 @ blank_line @ ''![gif]('' @ downsized_medium_url g @ '')''
                           | None \<Rightarrow> body2)
              in (Inr (body3, validUrls), requests)))"

definition options_op :: "string \<Rightarrow> string \<Rightarrow> comment_options_op" where
  "options_op who plink =
     \<lparr>opt_author = who, opt_permlink = plink, max_accepted_payout = ''1000000.000 HBD'',
      percent_hbd = 10000, allow_votes = True, allow_curation_rewards = True,
      extensions = [(0, [\<lparr>account = ''snapie'', weight = 1000\<rparr>])]\<rparr>"

definition publish ::
  "props \<Rightarrow> comment_env \<Rightarrow> composer_state \<Rightarrow> string \<Rightarrow> string \<Rightarrow> string list
     \<Rightarrow> composer_state \<times> effect list" where
  \<comment> \<open>the \<^verbatim>\<open>try\<close> and \<^verbatim>\<open>catch\<close> of lines 361 to 441\<close>
  "publish p e s plink commentBody validUrls =
     (let who = or_empty (user p);
          lookup = (if pp p = ''snaps'' then [GetLastSnapsContainer] else []);
          container =
            (if pp p = ''snaps''
             then (case last_container e of
                     Inl err \<Rightarrow> Inl err
                   | Inr cp \<Rightarrow> Inr (cp, [or_empty (community_tag e), ''snaps'']))
             else Inr (pp p, []))
      in case container of
           Inl err \<Rightarrow> (s, lookup @ [Alert (''Error posting: '' @ err)])
         | Inr (pp', seed) \<Rightarrow>
             (let hashtags = extractHashtags commentBody;
                  snapsTags = spread_new_Set (seed @ hashtags);
                  meta = \<lparr>app = ''mycommunity'', tags = snapsTags, images_meta = validUrls\<rparr>;
                  submission =
                    (if truthy (videoEmbedUrl s)
                     then SignAndBroadcastTx
                            [Comment \<lparr>parent_author = pa p, parent_permlink = pp',
                                      author = who, permlink = plink, title = [],
                                      body = commentBody, json_metadata = meta\<rparr>,
                             CommentOptions (options_op who plink)] Posting
                     else AiohaComment (pa p) pp' plink [] commentBody meta)
              in case ledger_response e of
                   Inl err \<Rightarrow> (s, lookup @ [submission, Alert (''Error posting: '' @ err)])
                 | Inr success \<Rightarrow>
                     if success
                     then (s\<lparr>draft_text := [], images := [], selectedGif := None,
                             selectedVideo := None, videoEmbedUrl := None,
                             videoUploadProgress := 0, thumbnailProcessing := False\<rparr>,
                           lookup
                             @ [submission,
                                OnNewComment \<lparr>nc_author = who, nc_permlink = plink,
                                               nc_body = commentBody\<rparr>,
                                OnClose])
                     else (s, lookup @ [submission, Alert ''Failed to post. Please try again.''])))"

definition nothing_to_post :: "composer_state \<Rightarrow> bool" where
  \<comment> \<open>the condition of line 315\<close>
  "nothing_to_post s =
     (trim (draft_text s) = [] \<and> images s = [] \<and> selectedGif s = None
        \<and> selectedVideo s = None)"

definition handleComment :: "props \<Rightarrow> comment_env \<Rightarrow> composer_state \<Rightarrow> run" where
  "handleComment p e s =
     (if \<not> truthy (user p)
      then \<lparr>final = s, effects = [Alert ''You must be logged in to post.''], thrown = None\<rparr>
      else if nothing_to_post s
      then \<lparr>final = s,
            effects = [Alert ''Please enter some text, upload an image, select a gif, or upload a video before posting.''],
            thrown = None\<rparr>
      else
        (let s1 = s\<lparr>isLoading := True, uploadProgress := []\<rparr>;
             plink = make_permlink (now e);
             (composed, requests) = compose_body e s;
             s2 = (if images s \<noteq> [] then s1\<lparr>uploadProgress := reported_progress e\<rparr> else s1)
         in case composed of
              Inl err \<Rightarrow> \<lparr>final = s2, effects = requests, thrown = Some err\<rparr>
            | Inr (commentBody, validUrls) \<Rightarrow>
                if commentBody = [] then \<lparr>final = s2, effects = requests, thrown = None\<rparr>
                else
                  (let (s3, published) = publish p e s2 plink commentBody validUrls
                   in \<lparr>final = s3\<lparr>isLoading := False, uploadProgress := []\<rparr>,
                       effects = requests @ published, thrown = None\<rparr>)))"

text \<open>
  The operations that a call on the ledger submits. \<^verbatim>\<open>signAndBroadcastTx\<close> submits the
  operations it is given; \<^verbatim>\<open>aioha.comment\<close>, called as here with no options argument,
  submits one \<^verbatim>\<open>comment\<close> operation of the logged-in user.
\<close>

fun ledger_ops :: "string \<Rightarrow> effect \<Rightarrow> operation list option" where
  "ledger_ops who (SignAndBroadcastTx ops k) = Some ops"
| "ledger_ops who (AiohaComment pa' pp' plink ttl bdy meta) =
     Some [Comment \<lparr>parent_author = pa', parent_permlink = pp', author = who,
                    permlink = plink, title = ttl, body = bdy, json_metadata = meta\<rparr>]"
| "ledger_ops who x = None"

definition submissions :: "props \<Rightarrow> run \<Rightarrow> operation list list" where
  "submissions p r = non_null (map (ledger_ops (or_empty (user p))) (effects r))"

section \<open>Reading a run\<close>

fun notified :: "effect \<Rightarrow> new_comment option" where
  "notified (OnNewComment c) = Some c"
| "notified x = None"

fun alert_text :: "effect \<Rightarrow> string option" where
  "alert_text (Alert msg) = Some msg"
| "alert_text x = None"

definition notifications :: "run \<Rightarrow> new_comment list" where
  \<comment> \<open>the records passed to \<^verbatim>\<open>onNewComment\<close>\<close>
  "notifications r = non_null (map notified (effects r))"

definition alerts :: "run \<Rightarrow> string list" where
  \<comment> \<open>the messages shown with \<^verbatim>\<open>alert\<close>\<close>
  "alerts r = non_null (map alert_text (effects r))"

definition published_comment ::
  "props \<Rightarrow> comment_env \<Rightarrow> string \<Rightarrow> string list \<Rightarrow> comment_op" where
  \<comment> \<open>the \<^verbatim>\<open>comment\<close> operation that either branch of line 375 submits, once the
     container of snaps is known\<close>
  "published_comment p e commentBody validUrls =
     \<lparr>parent_author = pa p,
      parent_permlink =
        (if pp p = ''snaps''
         then (case last_container e of Inr cp \<Rightarrow> cp | Inl err \<Rightarrow> pp p) else pp p),
      author = or_empty (user p),
      permlink = make_permlink (now e),
      title = [],
      body = commentBody,
      json_metadata =
        \<lparr>app = ''mycommunity'',
         tags = spread_new_Set
                  ((if pp p = ''snaps'' then [or_empty (community_tag e), ''snaps''] else [])
                     @ extractHashtags commentBody),
         images_meta = validUrls\<rparr>\<rparr>"

text \<open>
  The URLs of the images whose upload succeeded, in the order of the images.
\<close>

definition uploaded_urls :: "comment_env \<Rightarrow> composer_state \<Rightarrow> string list" where
  "uploaded_urls e s =
     non_null (map (\<lambda>index. uploaded_url (image_results e index)) [0..<length (images s)])"

fun thumbnail_request :: "effect \<Rightarrow> (string \<times> string \<times> string) option" where
  \<comment> \<open>the video identifier, the thumbnail URL and the key of a request to the
     thumbnail endpoint\<close>
  "thumbnail_request (FetchSetThumbnail videoId thumbnailUrl apiKey) =
     Some (videoId, thumbnailUrl, apiKey)"
| "thumbnail_request x = None"

text \<open>
  The digits of the year in a permlink: the sign of a year outside \<open>0..9999\<close> is not
  alphanumeric.
\<close>

definition year_digits :: "int \<Rightarrow> string" where
  "year_digits y = (if 0 \<le> y \<and> y \<le> 9999 then zero_pad 4 (nat y) else zero_pad 6 (nat \<bar>y\<bar>))"

text \<open>
  The words of the specification on hashtags: at every place of the text where a
  \<^verbatim>\<open>#\<close> stands before a word character, the run of word characters that follows is a
  tag candidate.
\<close>

fun all_hashtag_tokens :: "string \<Rightarrow> string list" where
  "all_hashtag_tokens [] = []"
| "all_hashtag_tokens (c # cs) =
     (if c = CHR ''#'' \<and> takeWhile is_word_char cs \<noteq> []
      then [takeWhile is_word_char cs] else [])
       @ all_hashtag_tokens cs"

section \<open>Example inputs\<close>

definition demo_state :: composer_state where
  "demo_state =
     \<lparr>draft_text = ''hello #world #World #snap'', images = [], selectedGif = None,
      selectedVideo = None, videoUploadProgress = 0, videoEmbedUrl = None,
      thumbnailProcessing = False, isLoading = False, uploadProgress = []\<rparr>"

definition demo_props :: props where
  "demo_props = \<lparr>pa = ''peak.snaps'', pp = ''snaps'', user = Some ''alice''\<rparr>"

definition demo_env :: comment_env where
  "demo_env =
     \<lparr>now = 1762069512345, community_tag = Some ''hive-173115'',
      image_results = (\<lambda>index. UploadFailed ''offline''), reported_progress = [],
      last_container = Inr ''snap-container-1762000000'', ledger_response = Inr True\<rparr>"

definition demo_ops :: "operation list" where
  "demo_ops =
     [Comment
        \<lparr>parent_author = ''peak.snaps'', parent_permlink = ''snap-container-1762000000'',
         author = ''alice'', permlink = ''20251102t074512345z'', title = [],
         body = ''hello #world #World #snap'',
         json_metadata =
           \<lparr>app = ''mycommunity'',
            tags = [''hive-173115'', ''snaps'', ''world'', ''World'', ''snap''],
            images_meta = []\<rparr>\<rparr>]"

definition demo_video_state :: composer_state where
  "demo_video_state =
     \<lparr>draft_text = ''watch this'', images = [], selectedGif = None,
      selectedVideo = Some \<lparr>file_name = ''clip.mp4'', file_type = ''video/mp4'', file_bytes = []\<rparr>,
      videoUploadProgress = 100,
      videoEmbedUrl = Some ''https://play.3speak.tv/embed?v=alice/i2znmy5h#t=1'',
      thumbnailProcessing = False, isLoading = False, uploadProgress = []\<rparr>"

definition demo_video_props :: props where
  "demo_video_props = \<lparr>pa = ''bob'', pp = ''a-post'', user = Some ''alice''\<rparr>"

definition demo_video_ops :: "operation list" where
  "demo_video_ops =
     [Comment
        \<lparr>parent_author = ''bob'', parent_permlink = ''a-post'',
         author = ''alice'', permlink = ''20251102t074512345z'', title = [],
         body = ''watch this'' @ blank_line @ ''https://play.3speak.tv/embed?v=alice/i2znmy5h#t=1'',
         json_metadata =
           \<lparr>app = ''mycommunity'', tags = [''t''], images_meta = []\<rparr>\<rparr>,
      CommentOptions
        \<lparr>opt_author = ''alice'', opt_permlink = ''20251102t074512345z'',
         max_accepted_payout = ''1000000.000 HBD'', percent_hbd = 10000,
         allow_votes = True, allow_curation_rewards = True,
         extensions = [(0, [\<lparr>account = ''snapie'', weight = 1000\<rparr>])]\<rparr>]"

definition demo_rejecting_env :: comment_env where
  "demo_rejecting_env = demo_env\<lparr>ledger_response := Inr False\<rparr>"

definition demo_url :: "nat \<Rightarrow> string" where
  "demo_url i = ''https://images.hive.blog/DQm'' @ replicate i CHR ''x''"

definition demo_images_state :: composer_state where
  "demo_images_state =
     \<lparr>draft_text = ''pics #cats'',
      images = [\<lparr>file_name = ''a.png'', file_type = ''image/png'', file_bytes = []\<rparr>,
                \<lparr>file_name = ''b.png'', file_type = ''image/png'', file_bytes = []\<rparr>,
                \<lparr>file_name = ''c.png'', file_type = ''image/png'', file_bytes = []\<rparr>],
      selectedGif = Some \<lparr>gif_id = ''g1'', downsized_medium_url = ''https://media.giphy.com/g1.gif#x''\<rparr>,
      selectedVideo = None, videoUploadProgress = 0, videoEmbedUrl = None,
      thumbnailProcessing = False, isLoading = False, uploadProgress = []\<rparr>"

definition demo_images_env :: comment_env where
  "demo_images_env = demo_env\<lparr>image_results := (\<lambda>index. Uploaded (demo_url index))\<rparr>"

definition demo_partial_env :: comment_env where
  "demo_partial_env =
     demo_env\<lparr>image_results :=
       (\<lambda>index. if index = 1 then UploadFailed ''413'' else Uploaded (demo_url index))\<rparr>"

definition demo_unsigned_env :: comment_env where
  "demo_unsigned_env =
     demo_env\<lparr>image_results :=
       (\<lambda>index. if index = 1 then SignatureFailed ''no key''
                else Uploaded (demo_url index))\<rparr>"

definition demo_images_ops :: "operation list" where
  "demo_images_ops =
     [Comment
        \<lparr>parent_author = ''bob'', parent_permlink = ''a-post'',
         author = ''alice'', permlink = ''20251102t074512345z'', title = [],
         body = ''pics #cats'' @ blank_line
                  @ ''![image](https://images.hive.blog/DQm)'' @ [CHR 0x0A]
                  @ ''![image](https://images.hive.blog/DQmx)'' @ [CHR 0x0A]
                  @ ''![image](https://images.hive.blog/DQmxx)'' @ blank_line
                  @ ''![gif](https://media.giphy.com/g1.gif#x)'',
         json_metadata =
           \<lparr>app = ''mycommunity'', tags = [''cats'', ''x''],
            images_meta = [''https://images.hive.blog/DQm'', ''https://images.hive.blog/DQmx'',
                           ''https://images.hive.blog/DQmxx'']\<rparr>\<rparr>]"

definition demo_partial_ops :: "operation list" where
  "demo_partial_ops =
     [Comment
        \<lparr>parent_author = ''bob'', parent_permlink = ''a-post'',
         author = ''alice'', permlink = ''20251102t074512345z'', title = [],
         body = ''pics #cats'' @ blank_line
                  @ ''![image](https://images.hive.blog/DQm)'' @ [CHR 0x0A]
                  @ ''![image](https://images.hive.blog/DQmxx)'' @ blank_line
                  @ ''![gif](https://media.giphy.com/g1.gif#x)'',
         json_metadata =
           \<lparr>app = ''mycommunity'', tags = [''cats'', ''x''],
            images_meta = [''https://images.hive.blog/DQm'',
                           ''https://images.hive.blog/DQmxx'']\<rparr>\<rparr>]"

definition quoted :: "string \<Rightarrow> string" where
  "quoted x = [CHR 0x22] @ x @ [CHR 0x22]"

definition demo_ipfs_line :: string where
  "demo_ipfs_line =
     ''{'' @ quoted ''Name'' @ '':'' @ quoted ''thumb.jpg'' @ '','' @ quoted ''Hash'' @ '':''
       @ quoted ''QmXyz'' @ ''}''"

definition demo_platform :: platform where
  "demo_platform =
     \<lparr>JSON_parse =
        (\<lambda>line. if line = demo_ipfs_line
                 then Inr (JObj [(''Name'', JStr ''thumb.jpg''), (''Hash'', JStr ''QmXyz'')])
                 else if line = ''{}'' then Inr (JObj [])
                 else Inl ''SyntaxError: Unexpected token''),
      URL_searchParams =
        (\<lambda>url. if url = ''https://play.3speak.tv/embed?v=alice/i2znmy5h''
                then Inr [(''v'', ''alice/i2znmy5h'')]
                else Inl ''TypeError: Invalid URL'')\<rparr>"

definition demo_clip :: dom_file where
  "demo_clip = \<lparr>file_name = ''clip.mp4'', file_type = ''video/mp4'', file_bytes = ''VIDEO''\<rparr>"

definition demo_thumb_env :: thumb_env where
  "demo_thumb_env =
     \<lparr>video_events = [LoadedData, Seeked (ToBlob (Some ''JPEG''))],
      signature_result = Inl ''signing failed'',
      upload_result = Inr ''https://images.hive.blog/unused'',
      ipfs_fetch =
        Inr \<lparr>status = 200, statusText = ''OK'',
             body_text = Inr (''{}'' @ [CHR 0x0A] @ demo_ipfs_line @ [CHR 0x0A])\<rparr>\<rparr>"

definition demo_video_env :: video_env where
  "demo_video_env =
     \<lparr>api_key = Some ''key-123'',
      tus = \<lparr>progress_reports = [40, 100],
             embed_headers = [None, Some ''https://play.3speak.tv/embed?v=alice/i2znmy5h''],
             tus_end = OnSuccess\<rparr>,
      thumb = demo_thumb_env,
      thumbnail_fetch =
        Inr \<lparr>status = 500, statusText = ''Internal Server Error'', body_text = Inr []\<rparr>\<rparr>"

definition demo_idle :: composer_state where
  "demo_idle =
     \<lparr>draft_text = [], images = [], selectedGif = None, selectedVideo = None,
      videoUploadProgress = 0, videoEmbedUrl = None, thumbnailProcessing = False,
      isLoading = False, uploadProgress = []\<rparr>"

definition demo_failed_video_env :: video_env where
  "demo_failed_video_env =
     demo_video_env\<lparr>tus := \<lparr>progress_reports = [40], embed_headers = [None],
                              tus_end = OnError ''offline''\<rparr>\<rparr>"

definition demo_failed_thumb_env :: video_env where
  "demo_failed_thumb_env =
     demo_video_env\<lparr>thumb := demo_thumb_env\<lparr>video_events := [LoadedData, Seeked NoContext]\<rparr>\<rparr>"

section \<open>Lists, sets and hashtags\<close>

lemma non_null_append: "non_null (xs @ ys) = non_null xs @ non_null ys"
  by (induction xs) (auto split: option.splits)

lemma non_null_all_None: "\<forall>x \<in> set xs. x = None \<Longrightarrow> non_null xs = []"
  by (induction xs) auto

lemma spread_snoc: "spread_new_Set (xs @ [x]) = set_add (spread_new_Set xs) x"
  by (simp add: spread_new_Set_def)

lemma spread_Nil: "spread_new_Set [] = []"
  by (simp add: spread_new_Set_def)

lemma set_spread: "set (spread_new_Set xs) = set xs"
  by (induction xs rule: rev_induct) (auto simp: spread_snoc spread_Nil)

lemma distinct_spread: "distinct (spread_new_Set xs)"
  by (induction xs rule: rev_induct) (auto simp: spread_snoc spread_Nil set_spread)

lemma spread_append:
  "spread_new_Set (xs @ ys) = spread_new_Set xs @ filter (\<lambda>y. y \<notin> set xs) (spread_new_Set ys)"
proof (induction ys rule: rev_induct)
  case Nil
  show ?case by (simp add: spread_Nil)
next
  case (snoc y ys)
  have "spread_new_Set (xs @ ys @ [y]) = set_add (spread_new_Set (xs @ ys)) y"
    using spread_snoc [of "xs @ ys" y] by simp
  with snoc show ?case
    by (auto simp: spread_snoc set_spread)
qed

lemma spread_Cons:
  "spread_new_Set (x # xs) = x # filter (\<lambda>y. y \<noteq> x) (spread_new_Set xs)"
  using spread_append [of "[x]" xs] by (simp add: spread_new_Set_def)

lemma hash_not_word: "\<not> is_word_char CHR ''#''"
  by (simp add: is_word_char_def)

lemma tokens_skip_words:
  "\<forall>c \<in> set ws. is_word_char c \<Longrightarrow> all_hashtag_tokens (ws @ rest) = all_hashtag_tokens rest"
  by (induction ws) (auto simp: hash_not_word)

lemma tokens_skip_run:
  "all_hashtag_tokens cs = all_hashtag_tokens (dropWhile is_word_char cs)"
proof -
  have "all_hashtag_tokens (takeWhile is_word_char cs @ dropWhile is_word_char cs)
          = all_hashtag_tokens (dropWhile is_word_char cs)"
    by (rule tokens_skip_words) (auto dest: set_takeWhileD)
  then show ?thesis by simp
qed

lemma extractHashtags_tokens: "extractHashtags s = all_hashtag_tokens s"
proof (induction s rule: extractHashtags.induct)
  case 1
  show ?case by simp
next
  case (2 c cs)
  show ?case
  proof (cases "c = CHR ''#'' \<and> takeWhile is_word_char cs \<noteq> []")
    case True
    with 2 have "extractHashtags (c # cs)
        = takeWhile is_word_char cs # all_hashtag_tokens (dropWhile is_word_char cs)"
      by simp
    also have "\<dots> = all_hashtag_tokens (c # cs)"
      using True tokens_skip_run [of cs] by simp
    finally show ?thesis .
  next
    case False
    with 2 show ?thesis by auto
  qed
qed

lemma takeWhile_run:
  assumes "\<forall>c \<in> set t. is_word_char c" and "post = [] \<or> \<not> is_word_char (hd post)"
  shows "takeWhile is_word_char (t @ post) = t"
proof -
  have "takeWhile is_word_char post = []"
    using assms(2) by (cases post) auto
  with assms(1) show ?thesis by (simp add: takeWhile_append2)
qed

lemma dropWhile_run_end:
  "dropWhile is_word_char cs = [] \<or> \<not> is_word_char (hd (dropWhile is_word_char cs))"
  using hd_dropWhile [of is_word_char cs] by blast

lemma set_all_hashtag_tokens:
  "set (all_hashtag_tokens s) =
     {t. \<exists>pre post. s = pre @ CHR ''#'' # t @ post \<and> t \<noteq> [] \<and> (\<forall>c \<in> set t. is_word_char c)
           \<and> (post = [] \<or> \<not> is_word_char (hd post))}"
  (is "_ = ?occ s")
proof (induction s)
  case Nil
  show ?case by simp
next
  case (Cons c cs)
  note IH = Cons.IH
  show ?case
  proof (intro set_eqI iffI)
    fix t
    assume "t \<in> set (all_hashtag_tokens (c # cs))"
    then consider
        (head) "c = CHR ''#''" "takeWhile is_word_char cs \<noteq> []" "t = takeWhile is_word_char cs"
      | (tail) "t \<in> set (all_hashtag_tokens cs)"
      by (auto split: if_splits)
    then show "t \<in> ?occ (c # cs)"
    proof cases
      case head
      have "c # cs = [] @ CHR ''#'' # t @ dropWhile is_word_char cs"
        using head by simp
      moreover have "\<forall>x \<in> set t. is_word_char x"
        using head by (auto dest: set_takeWhileD)
      ultimately show ?thesis
        using head dropWhile_run_end [of cs] by blast
    next
      case tail
      then obtain pre post where "cs = pre @ CHR ''#'' # t @ post" "t \<noteq> []"
        "\<forall>x \<in> set t. is_word_char x" "post = [] \<or> \<not> is_word_char (hd post)"
        using IH by auto
      then have "c # cs = (c # pre) @ CHR ''#'' # t @ post" by simp
      with \<open>t \<noteq> []\<close> \<open>\<forall>x \<in> set t. is_word_char x\<close> \<open>post = [] \<or> \<not> is_word_char (hd post)\<close>
      show ?thesis by blast
    qed
  next
    fix t
    assume "t \<in> ?occ (c # cs)"
    then obtain pre post where occ: "c # cs = pre @ CHR ''#'' # t @ post" "t \<noteq> []"
      "\<forall>x \<in> set t. is_word_char x" "post = [] \<or> \<not> is_word_char (hd post)"
      by auto
    show "t \<in> set (all_hashtag_tokens (c # cs))"
    proof (cases pre)
      case Nil
      with occ have "c = CHR ''#''" "cs = t @ post" by simp_all
      moreover have "takeWhile is_word_char (t @ post) = t"
        using occ by (intro takeWhile_run)
      ultimately show ?thesis using occ by simp
    next
      case (Cons d pre')
      with occ have "cs = pre' @ CHR ''#'' # t @ post" by simp
      with occ have "t \<in> ?occ cs" by blast
      then have "t \<in> set (all_hashtag_tokens cs)" using IH by simp
      then show ?thesis by simp
    qed
  qed
qed

section \<open>The runs of \<^verbatim>\<open>handleComment\<close> that reach the ledger\<close>

lemma upload_images_requests:
  "x \<in> set (snd (upload_images e imgs)) \<Longrightarrow>
     (\<exists>f. x = GetFileSignature f) \<or> (\<exists>f i. x = UploadImage f i)"
  by (auto simp: upload_images_def Let_def split: option.splits)

lemma compose_body_requests:
  "x \<in> set (snd (compose_body e s)) \<Longrightarrow>
     (\<exists>f. x = GetFileSignature f) \<or> (\<exists>f i. x = UploadImage f i)"
  using upload_images_requests [of x e "images s"]
  by (cases "upload_images e (images s)")
     (auto simp: compose_body_def Let_def split: sum.splits prod.splits if_splits)

lemma compose_body_no_ledger:
  "non_null (map (ledger_ops w) (snd (compose_body e s))) = []"
  by (rule non_null_all_None) (auto dest: compose_body_requests)

lemma compose_body_silent:
  "non_null (map notified (snd (compose_body e s))) = []"
  "non_null (map alert_text (snd (compose_body e s))) = []"
  by (rule non_null_all_None, auto dest: compose_body_requests)+

lemma publish_ledger:
  "non_null (map (ledger_ops (or_empty (user p)))
      (snd (publish p e s (make_permlink (now e)) b urls)))
     = (if pp p = ''snaps'' \<and> isl (last_container e) then []
        else [Comment (published_comment p e b urls)
              # (if truthy (videoEmbedUrl s)
                 then [CommentOptions (options_op (or_empty (user p)) (make_permlink (now e)))]
                 else [])])"
  by (auto simp: publish_def Let_def published_comment_def split: sum.splits)

lemma handleComment_run:
  assumes "truthy (user p)" and "\<not> nothing_to_post s"
    and "fst (compose_body e s) = Inr (b, urls)" and "b \<noteq> []"
  shows "handleComment p e s =
     (let s2 = (if images s \<noteq> []
                then s\<lparr>isLoading := True, uploadProgress := reported_progress e\<rparr>
                else s\<lparr>isLoading := True, uploadProgress := []\<rparr>);
          r = publish p e s2 (make_permlink (now e)) b urls
      in \<lparr>final = (fst r)\<lparr>isLoading := False, uploadProgress := []\<rparr>,
          effects = snd (compose_body e s) @ snd r, thrown = None\<rparr>)"
  using assms
  by (cases "compose_body e s") (simp add: handleComment_def Let_def split: prod.splits)

lemma submitted_not_nothing:
  "ops \<in> set (submissions p (handleComment p e s)) \<Longrightarrow> \<not> nothing_to_post s"
  by (auto simp: submissions_def handleComment_def split: if_splits)

lemma handleComment_submitted:
  assumes "ops \<in> set (submissions p (handleComment p e s))"
  obtains b urls where
    "truthy (user p)"
    "fst (compose_body e s) = Inr (b, urls)"
    "b \<noteq> []"
    "\<not> (pp p = ''snaps'' \<and> isl (last_container e))"
    "ops = Comment (published_comment p e b urls)
             # (if truthy (videoEmbedUrl s)
                then [CommentOptions (options_op (or_empty (user p)) (make_permlink (now e)))]
                else [])"
    "submissions p (handleComment p e s) = [ops]"
proof -
  let ?w = "or_empty (user p)"
  have logged: "truthy (user p)"
    using assms by (auto simp: submissions_def handleComment_def split: if_splits)
  have draft: "\<not> nothing_to_post s"
    using assms by (rule submitted_not_nothing)
  obtain composed requests where cb: "compose_body e s = (composed, requests)"
    by (cases "compose_body e s")
  have req: "non_null (map (ledger_ops ?w) requests) = []"
    using compose_body_no_ledger [of ?w e s] cb by simp
  show ?thesis
  proof (cases composed)
    case (Inl err)
    with assms logged draft cb req show ?thesis
      by (simp add: submissions_def handleComment_def Let_def)
  next
    case (Inr bu)
    obtain b urls where bu: "bu = (b, urls)" by (cases bu)
    show ?thesis
    proof (cases "b = []")
      case True
      with assms logged draft cb req Inr bu show ?thesis
        by (simp add: submissions_def handleComment_def Let_def)
    next
      case False
      define s2 where "s2 =
        (if images s \<noteq> [] then s\<lparr>isLoading := True, uploadProgress := reported_progress e\<rparr>
         else s\<lparr>isLoading := True, uploadProgress := []\<rparr>)"
      have v: "videoEmbedUrl s2 = videoEmbedUrl s" by (simp add: s2_def)
      have subs: "submissions p (handleComment p e s)
          = non_null (map (ledger_ops ?w) (snd (publish p e s2 (make_permlink (now e)) b urls)))"
        using logged draft cb req Inr bu False
        by (simp add: submissions_def handleComment_def Let_def non_null_append s2_def
              split: prod.splits)
      show ?thesis
      proof (rule that [of b urls])
        show "truthy (user p)" by (rule logged)
        show "fst (compose_body e s) = Inr (b, urls)" using cb Inr bu by simp
        show "b \<noteq> []" by (rule False)
        show c: "\<not> (pp p = ''snaps'' \<and> isl (last_container e))"
          using assms subs publish_ledger [of p e s2 b urls] by (auto split: if_splits)
        show o: "ops = Comment (published_comment p e b urls)
             # (if truthy (videoEmbedUrl s)
                then [CommentOptions (options_op (or_empty (user p)) (make_permlink (now e)))]
                else [])"
          using assms subs publish_ledger [of p e s2 b urls] v by (auto split: if_splits)
        show "submissions p (handleComment p e s) = [ops]"
          using c o subs publish_ledger [of p e s2 b urls] v by (auto split: if_splits)
      qed
    qed
  qed
qed

lemma submitted_tags:
  assumes "ops \<in> set (submissions p (handleComment p e s))"
  shows "\<exists>c rest. ops = Comment c # rest
           \<and> tags (json_metadata c)
               = spread_new_Set
                   ((if pp p = ''snaps'' then [or_empty (community_tag e), ''snaps''] else [])
                      @ extractHashtags (body c))"
  using assms by (rule handleComment_submitted) (simp add: published_comment_def)

lemma demo_submissions:
  "submissions demo_props (handleComment demo_props demo_env demo_state) = [demo_ops]"
  by code_simp

section \<open>Hashtags and the list of tags\<close>

text \<open>
  C6. The hashtags of a text depend on the text alone. They are the tokens made of a
  \<^verbatim>\<open>#\<close> and the run of one or more word characters after it, without the \<^verbatim>\<open>#\<close>, in
  the order of the text; the match is case-sensitive, so that
  \<^verbatim>\<open>hello #world #World #snap\<close> has the three tags \<open>world\<close>, \<open>World\<close> and \<open>snap\<close>, each
  once. The list of tags has no duplicates and keeps the first occurrence of each. In a
  submission whose parent permlink is the reserved \<open>snaps\<close>, the community tag and then
  \<open>snaps\<close> come first, before the hashtags in the order of their first occurrence.
\<close>

theorem hashtags_and_tag_list:
  "extractHashtags txt = all_hashtag_tokens txt
   \<and> set (extractHashtags txt) =
       {t. \<exists>pre post. txt = pre @ CHR ''#'' # t @ post \<and> t \<noteq> []
             \<and> (\<forall>c \<in> set t. is_word_char c) \<and> (post = [] \<or> \<not> is_word_char (hd post))}
   \<and> spread_new_Set (extractHashtags ''hello #world #World #snap'')
       = [''world'', ''World'', ''snap'']
   \<and> distinct (spread_new_Set (seed @ extractHashtags txt))
   \<and> set (spread_new_Set (seed @ extractHashtags txt)) = set seed \<union> set (extractHashtags txt)
   \<and> spread_new_Set (t # ts) = t # filter (\<lambda>u. u \<noteq> t) (spread_new_Set ts)
   \<and> (ops \<in> set (submissions p (handleComment p e s)) \<longrightarrow>
        (\<exists>c rest. ops = Comment c # rest
           \<and> tags (json_metadata c) =
               (if pp p = ''snaps''
                then spread_new_Set [or_empty (community_tag e), ''snaps'']
                       @ filter (\<lambda>t. t \<notin> {or_empty (community_tag e), ''snaps''})
                           (spread_new_Set (extractHashtags (body c)))
                else spread_new_Set (extractHashtags (body c)))))"
proof (intro conjI impI)
  show "extractHashtags txt = all_hashtag_tokens txt"
    by (rule extractHashtags_tokens)
  show "set (extractHashtags txt) =
       {t. \<exists>pre post. txt = pre @ CHR ''#'' # t @ post \<and> t \<noteq> []
             \<and> (\<forall>c \<in> set t. is_word_char c) \<and> (post = [] \<or> \<not> is_word_char (hd post))}"
    by (simp only: extractHashtags_tokens set_all_hashtag_tokens)
  show "spread_new_Set (extractHashtags ''hello #world #World #snap'')
       = [''world'', ''World'', ''snap'']"
    by code_simp
  show "distinct (spread_new_Set (seed @ extractHashtags txt))"
    by (rule distinct_spread)
  show "set (spread_new_Set (seed @ extractHashtags txt)) = set seed \<union> set (extractHashtags txt)"
    by (simp add: set_spread)
  show "spread_new_Set (t # ts) = t # filter (\<lambda>u. u \<noteq> t) (spread_new_Set ts)"
    by (rule spread_Cons)
next
  assume "ops \<in> set (submissions p (handleComment p e s))"
  then obtain c rest where c: "ops = Comment c # rest"
    "tags (json_metadata c)
       = spread_new_Set
           ((if pp p = ''snaps'' then [or_empty (community_tag e), ''snaps''] else [])
              @ extractHashtags (body c))"
    using submitted_tags by blast
  have "spread_new_Set ([or_empty (community_tag e), ''snaps''] @ extractHashtags (body c))
      = spread_new_Set [or_empty (community_tag e), ''snaps'']
          @ filter (\<lambda>t. t \<notin> {or_empty (community_tag e), ''snaps''})
              (spread_new_Set (extractHashtags (body c)))"
    using spread_append [of "[or_empty (community_tag e), ''snaps'']" "extractHashtags (body c)"]
    by simp
  with c show "\<exists>c rest. ops = Comment c # rest
           \<and> tags (json_metadata c) =
               (if pp p = ''snaps''
                then spread_new_Set [or_empty (community_tag e), ''snaps'']
                       @ filter (\<lambda>t. t \<notin> {or_empty (community_tag e), ''snaps''})
                           (spread_new_Set (extractHashtags (body c)))
                else spread_new_Set (extractHashtags (body c)))"
    by auto
qed

lemma demo_tags:
  "spread_new_Set [''hive-173115'', ''snaps'']
     @ filter (\<lambda>t. t \<notin> {''hive-173115'', ''snaps''})
         (spread_new_Set (extractHashtags ''hello #world #World #snap''))
   = [''hive-173115'', ''snaps'', ''world'', ''World'', ''snap'']"
  by code_simp

theorem hashtags_and_tag_list_witness:
  "demo_ops \<in> set (submissions demo_props (handleComment demo_props demo_env demo_state))
   \<and> (\<exists>c rest. demo_ops = Comment c # rest
         \<and> tags (json_metadata c) = [''hive-173115'', ''snaps'', ''world'', ''World'', ''snap''])"
proof -
  have m: "demo_ops \<in> set (submissions demo_props (handleComment demo_props demo_env demo_state))"
    by (simp only: demo_submissions list.set_intros)
  note inst = hashtags_and_tag_list
      [where ops = demo_ops and p = demo_props and e = demo_env and s = demo_state]
  note imp = inst [THEN conjunct2, THEN conjunct2, THEN conjunct2, THEN conjunct2,
      THEN conjunct2, THEN conjunct2]
  obtain c rest where c: "demo_ops = Comment c # rest"
    and t: "tags (json_metadata c) =
             (if pp demo_props = ''snaps''
              then spread_new_Set [or_empty (community_tag demo_env), ''snaps'']
                     @ filter (\<lambda>t. t \<notin> {or_empty (community_tag demo_env), ''snaps''})
                         (spread_new_Set (extractHashtags (body c)))
              else spread_new_Set (extractHashtags (body c)))"
    using imp [THEN mp, OF m] by (elim exE conjE)
  have b: "body c = ''hello #world #World #snap''"
    using c unfolding demo_ops_def by clarsimp
  have "pp demo_props = ''snaps''" "or_empty (community_tag demo_env) = ''hive-173115''"
    by (simp_all add: demo_props_def demo_env_def or_empty_def)
  with t b have "tags (json_metadata c) = [''hive-173115'', ''snaps'', ''world'', ''World'', ''snap'']"
    by (simp only: demo_tags simp_thms if_True)
  with m c show ?thesis by (intro conjI exI [of _ c] exI [of _ rest])
qed

lemma demo_video_submissions:
  "submissions demo_video_props (handleComment demo_video_props demo_env demo_video_state)
     = [demo_video_ops]"
  by code_simp

section \<open>The operations of a submission\<close>

text \<open>
  A draft with a video attached and its embed reference is submitted whenever the user is
  logged in and the container of snaps, if it is needed, is found.
\<close>

lemma video_draft_submitted:
  assumes "truthy (user p)" and "truthy (videoEmbedUrl s)" and "selectedVideo s \<noteq> None"
    and "images s = []" and "\<not> (pp p = ''snaps'' \<and> isl (last_container e))"
  shows "\<exists>c x. submissions p (handleComment p e s) = [[Comment c, CommentOptions x]]"
proof -
  let ?b = "draft_text s @ blank_line @ or_empty (videoEmbedUrl s)
              @ (case selectedGif s of None \<Rightarrow> []
                 | Some g \<Rightarrow> blank_line @ ''![gif]('' @ downsized_medium_url g @ '')'')"
  have cb: "compose_body e s = (Inr (?b, []), [])"
    using assms(2,4) by (simp add: compose_body_def Let_def split: option.splits)
  have b: "?b \<noteq> []" by (simp add: blank_line_def)
  have n: "\<not> nothing_to_post s"
    using assms(3) by (simp add: nothing_to_post_def)
  have run: "handleComment p e s =
      (let r = publish p e (s\<lparr>isLoading := True, uploadProgress := []\<rparr>)
                 (make_permlink (now e)) ?b []
       in \<lparr>final = (fst r)\<lparr>isLoading := False, uploadProgress := []\<rparr>,
           effects = snd r, thrown = None\<rparr>)"
    using handleComment_run [OF assms(1) n _ b, of e "[]"] cb assms(4)
    by (simp add: Let_def)
  have "submissions p (handleComment p e s)
      = [[Comment (published_comment p e ?b []),
          CommentOptions (options_op (or_empty (user p)) (make_permlink (now e)))]]"
    using publish_ledger [of p e "s\<lparr>isLoading := True, uploadProgress := []\<rparr>" ?b "[]"]
      assms(2,5)
    by (simp add: run submissions_def Let_def)
  then show ?thesis by blast
qed

text \<open>
  C1. Every submission of a draft is one call on the ledger. With a video embed reference
  it consists of exactly two operations: the \<^verbatim>\<open>comment\<close> and a \<^verbatim>\<open>comment_options\<close> of
  the same author and permlink, whose beneficiary extension lists the one account
  \<open>snapie\<close> with weight 1000, with the capped maximum payout, \<^verbatim>\<open>percent_hbd\<close> 10000 and
  votes and curation rewards allowed. Without one it consists of exactly one
  \<^verbatim>\<open>comment\<close> operation.
\<close>

theorem publish_operations:
  assumes "ops \<in> set (submissions p (handleComment p e s))"
  shows "submissions p (handleComment p e s) = [ops]
     \<and> (\<exists>c. (truthy (videoEmbedUrl s) \<longrightarrow>
               ops = [Comment c,
                      CommentOptions
                        \<lparr>opt_author = author c, opt_permlink = permlink c,
                         max_accepted_payout = ''1000000.000 HBD'', percent_hbd = 10000,
                         allow_votes = True, allow_curation_rewards = True,
                         extensions = [(0, [\<lparr>account = ''snapie'', weight = 1000\<rparr>])]\<rparr>])
            \<and> (\<not> truthy (videoEmbedUrl s) \<longrightarrow> ops = [Comment c]))"
  using assms
proof (rule handleComment_submitted)
  fix b urls
  assume ops: "ops = Comment (published_comment p e b urls)
             # (if truthy (videoEmbedUrl s)
                then [CommentOptions (options_op (or_empty (user p)) (make_permlink (now e)))]
                else [])"
    and one: "submissions p (handleComment p e s) = [ops]"
  have "author (published_comment p e b urls) = or_empty (user p)"
    "permlink (published_comment p e b urls) = make_permlink (now e)"
    by (simp_all add: published_comment_def)
  with ops have "(truthy (videoEmbedUrl s) \<longrightarrow>
               ops = [Comment (published_comment p e b urls),
                      CommentOptions
                        \<lparr>opt_author = author (published_comment p e b urls),
                         opt_permlink = permlink (published_comment p e b urls),
                         max_accepted_payout = ''1000000.000 HBD'', percent_hbd = 10000,
                         allow_votes = True, allow_curation_rewards = True,
                         extensions = [(0, [\<lparr>account = ''snapie'', weight = 1000\<rparr>])]\<rparr>])
            \<and> (\<not> truthy (videoEmbedUrl s) \<longrightarrow> ops = [Comment (published_comment p e b urls)])"
    by (simp add: options_op_def)
  with one show ?thesis by blast
qed

theorem publish_operations_witness:
  "demo_video_ops \<in> set (submissions demo_video_props
                            (handleComment demo_video_props demo_env demo_video_state))
   \<and> truthy (videoEmbedUrl demo_video_state)
   \<and> (\<exists>c x. demo_video_ops = [Comment c, CommentOptions x]
          \<and> extensions x = [(0, [\<lparr>account = ''snapie'', weight = 1000\<rparr>])])
   \<and> demo_ops \<in> set (submissions demo_props (handleComment demo_props demo_env demo_state))
   \<and> \<not> truthy (videoEmbedUrl demo_state)
   \<and> (\<exists>c. demo_ops = [Comment c])"
proof -
  have m: "demo_video_ops \<in> set (submissions demo_video_props
                            (handleComment demo_video_props demo_env demo_video_state))"
    by (simp only: demo_video_submissions list.set_intros)
  have v: "truthy (videoEmbedUrl demo_video_state)"
    by (simp add: demo_video_state_def truthy_def)
  have a: "\<exists>c x. demo_video_ops = [Comment c, CommentOptions x]
          \<and> extensions x = [(0, [\<lparr>account = ''snapie'', weight = 1000\<rparr>])]"
    using publish_operations [OF m] v by fastforce
  have m': "demo_ops \<in> set (submissions demo_props (handleComment demo_props demo_env demo_state))"
    by (simp only: demo_submissions list.set_intros)
  have v': "\<not> truthy (videoEmbedUrl demo_state)"
    by (simp add: demo_state_def truthy_def)
  have "\<exists>c. demo_ops = [Comment c]"
    using publish_operations [OF m'] v' by blast
  with m v a m' v' show ?thesis by (intro conjI)
qed

section \<open>The answer of the ledger\<close>

lemma publish_accepted:
  assumes "\<not> (pp p = ''snaps'' \<and> isl (last_container e))" and "ledger_response e = Inr True"
  shows "fst (publish p e s plink b urls) =
           s\<lparr>draft_text := [], images := [], selectedGif := None, selectedVideo := None,
             videoEmbedUrl := None, videoUploadProgress := 0, thumbnailProcessing := False\<rparr>"
    and "non_null (map notified (snd (publish p e s plink b urls)))
           = [\<lparr>nc_author = or_empty (user p), nc_permlink = plink, nc_body = b\<rparr>]"
    and "non_null (map alert_text (snd (publish p e s plink b urls))) = []"
  using assms by (auto simp: publish_def Let_def split: sum.splits)

lemma publish_rejected:
  assumes "\<not> (pp p = ''snaps'' \<and> isl (last_container e))" and "ledger_response e \<noteq> Inr True"
  shows "fst (publish p e s plink b urls) = s"
    and "non_null (map notified (snd (publish p e s plink b urls))) = []"
    and "non_null (map alert_text (snd (publish p e s plink b urls)))
           = [case ledger_response e of
                Inl err \<Rightarrow> ''Error posting: '' @ err
              | Inr success \<Rightarrow> ''Failed to post. Please try again.'']"
  using assms by (auto simp: publish_def Let_def split: sum.splits)

text \<open>
  C7. When the ledger accepts the submission, the text, the images, the GIF, the video,
  the embed reference, the progress of the uploads and the thumbnail flag are all cleared
  and the caller is given the record of the author, the permlink and the body of the
  comment, with no alert. When the ledger rejects it, or the call throws, the draft and
  the uploads are as they were, the caller is not notified, and one alert is shown.
\<close>

theorem ledger_answer:
  assumes "ops \<in> set (submissions p (handleComment p e s))"
  shows "(ledger_response e = Inr True \<longrightarrow>
            final (handleComment p e s) =
              s\<lparr>draft_text := [], images := [], selectedGif := None, selectedVideo := None,
                videoEmbedUrl := None, videoUploadProgress := 0, thumbnailProcessing := False,
                isLoading := False, uploadProgress := []\<rparr>
            \<and> (\<exists>c rest. ops = Comment c # rest
                  \<and> notifications (handleComment p e s)
                      = [\<lparr>nc_author = author c, nc_permlink = permlink c, nc_body = body c\<rparr>])
            \<and> alerts (handleComment p e s) = [])
       \<and> (ledger_response e \<noteq> Inr True \<longrightarrow>
            final (handleComment p e s) = s\<lparr>isLoading := False, uploadProgress := []\<rparr>
            \<and> (isLoading s = False \<and> uploadProgress s = [] \<longrightarrow> final (handleComment p e s) = s)
            \<and> notifications (handleComment p e s) = []
            \<and> alerts (handleComment p e s)
                = [case ledger_response e of
                     Inl err \<Rightarrow> ''Error posting: '' @ err
                   | Inr success \<Rightarrow> ''Failed to post. Please try again.''])"
  using assms
proof (rule handleComment_submitted)
  fix b urls
  assume logged: "truthy (user p)"
    and cb: "fst (compose_body e s) = Inr (b, urls)"
    and b: "b \<noteq> []"
    and container: "\<not> (pp p = ''snaps'' \<and> isl (last_container e))"
    and ops: "ops = Comment (published_comment p e b urls)
             # (if truthy (videoEmbedUrl s)
                then [CommentOptions (options_op (or_empty (user p)) (make_permlink (now e)))]
                else [])"
  define s2 where "s2 =
    (if images s \<noteq> [] then s\<lparr>isLoading := True, uploadProgress := reported_progress e\<rparr>
     else s\<lparr>isLoading := True, uploadProgress := []\<rparr>)"
  define r where "r = publish p e s2 (make_permlink (now e)) b urls"
  have run: "handleComment p e s =
      \<lparr>final = (fst r)\<lparr>isLoading := False, uploadProgress := []\<rparr>,
       effects = snd (compose_body e s) @ snd r, thrown = None\<rparr>"
    using handleComment_run [OF logged submitted_not_nothing [OF assms] cb b]
    by (simp add: Let_def s2_def r_def)
  have n: "notifications (handleComment p e s) = non_null (map notified (snd r))"
    and a: "alerts (handleComment p e s) = non_null (map alert_text (snd r))"
    by (simp_all add: run notifications_def alerts_def non_null_append compose_body_silent)
  have f: "final (handleComment p e s) = (fst r)\<lparr>isLoading := False, uploadProgress := []\<rparr>"
    by (simp add: run)
  have c: "author (published_comment p e b urls) = or_empty (user p)"
    "permlink (published_comment p e b urls) = make_permlink (now e)"
    "body (published_comment p e b urls) = b"
    by (simp_all add: published_comment_def)
  show ?thesis
  proof (intro conjI impI)
    assume ok: "ledger_response e = Inr True"
    show "final (handleComment p e s) =
              s\<lparr>draft_text := [], images := [], selectedGif := None, selectedVideo := None,
                videoEmbedUrl := None, videoUploadProgress := 0, thumbnailProcessing := False,
                isLoading := False, uploadProgress := []\<rparr>"
      by (simp add: f r_def publish_accepted(1) [OF container ok] s2_def)
    show "\<exists>c rest. ops = Comment c # rest
                  \<and> notifications (handleComment p e s)
                      = [\<lparr>nc_author = author c, nc_permlink = permlink c, nc_body = body c\<rparr>]"
      using ops c by (simp add: n r_def publish_accepted(2) [OF container ok])
    show "alerts (handleComment p e s) = []"
      by (simp add: a r_def publish_accepted(3) [OF container ok])
  next
    assume ko: "ledger_response e \<noteq> Inr True"
    show st: "final (handleComment p e s) = s\<lparr>isLoading := False, uploadProgress := []\<rparr>"
      by (simp add: f r_def publish_rejected(1) [OF container ko] s2_def)
    show "final (handleComment p e s) = s" if "isLoading s = False \<and> uploadProgress s = []"
      using that st by simp
    show "notifications (handleComment p e s) = []"
      by (simp add: n r_def publish_rejected(2) [OF container ko])
    show "alerts (handleComment p e s)
                = [case ledger_response e of
                     Inl err \<Rightarrow> ''Error posting: '' @ err
                   | Inr success \<Rightarrow> ''Failed to post. Please try again.'']"
      by (simp add: a r_def publish_rejected(3) [OF container ko])
  qed
qed

lemma demo_rejected_submissions:
  "submissions demo_props (handleComment demo_props demo_rejecting_env demo_state) = [demo_ops]"
  by code_simp

theorem ledger_answer_witness:
  "demo_ops \<in> set (submissions demo_props (handleComment demo_props demo_env demo_state))
   \<and> ledger_response demo_env = Inr True
   \<and> final (handleComment demo_props demo_env demo_state) = demo_state\<lparr>draft_text := []\<rparr>
   \<and> notifications (handleComment demo_props demo_env demo_state)
       = [\<lparr>nc_author = ''alice'', nc_permlink = ''20251102t074512345z'',
           nc_body = ''hello #world #World #snap''\<rparr>]
   \<and> demo_ops \<in> set (submissions demo_props
                        (handleComment demo_props demo_rejecting_env demo_state))
   \<and> ledger_response demo_rejecting_env \<noteq> Inr True
   \<and> final (handleComment demo_props demo_rejecting_env demo_state) = demo_state
   \<and> alerts (handleComment demo_props demo_rejecting_env demo_state)
       = [''Failed to post. Please try again.'']"
proof -
  have m: "demo_ops \<in> set (submissions demo_props (handleComment demo_props demo_env demo_state))"
    by (simp only: demo_submissions list.set_intros)
  have ok: "ledger_response demo_env = Inr True"
    by (simp add: demo_env_def)
  note acc = ledger_answer [OF m, THEN conjunct1, THEN mp, OF ok]
  have f: "final (handleComment demo_props demo_env demo_state) = demo_state\<lparr>draft_text := []\<rparr>"
    using acc [THEN conjunct1] by (simp add: demo_state_def)
  obtain c rest where c: "demo_ops = Comment c # rest"
    and n: "notifications (handleComment demo_props demo_env demo_state)
              = [\<lparr>nc_author = author c, nc_permlink = permlink c, nc_body = body c\<rparr>]"
    using acc [THEN conjunct2, THEN conjunct1] by (elim exE conjE)
  have "author c = ''alice''" "permlink c = ''20251102t074512345z''"
    "body c = ''hello #world #World #snap''"
    using c unfolding demo_ops_def by clarsimp+
  with n have n': "notifications (handleComment demo_props demo_env demo_state)
       = [\<lparr>nc_author = ''alice'', nc_permlink = ''20251102t074512345z'',
           nc_body = ''hello #world #World #snap''\<rparr>]"
    by (simp only:)
  have m': "demo_ops \<in> set (submissions demo_props
                        (handleComment demo_props demo_rejecting_env demo_state))"
    by (simp only: demo_rejected_submissions list.set_intros)
  have ko: "ledger_response demo_rejecting_env \<noteq> Inr True"
    by (simp add: demo_rejecting_env_def)
  note rej = ledger_answer [OF m', THEN conjunct2, THEN mp, OF ko]
  have idle: "isLoading demo_state = False \<and> uploadProgress demo_state = []"
    by (simp add: demo_state_def)
  have f': "final (handleComment demo_props demo_rejecting_env demo_state) = demo_state"
    using rej [THEN conjunct2, THEN conjunct1, THEN mp, OF idle] .
  have a: "alerts (handleComment demo_props demo_rejecting_env demo_state)
       = [''Failed to post. Please try again.'']"
    using rej [THEN conjunct2, THEN conjunct2, THEN conjunct2]
    by (simp add: demo_rejecting_env_def)
  from m ok f n' m' ko f' a show ?thesis by (intro conjI)
qed

section \<open>The body of the post\<close>

lemma non_null_eq_Nil: "non_null xs = [] \<longleftrightarrow> (\<forall>x \<in> set xs. x = None)"
  by (induction xs) (auto split: option.splits)

lemma map_enumerate_index:
  "map (\<lambda>(index, image). f index) (enumerate 0 imgs) = map f [0..<length imgs]"
proof -
  have "map (\<lambda>(index, image). f index) (enumerate 0 imgs) = map (f \<circ> fst) (enumerate 0 imgs)"
    by (simp add: case_prod_unfold comp_def)
  also have "\<dots> = map f (map fst (enumerate 0 imgs))"
    by (simp only: map_map)
  also have "\<dots> = map f [0..<length imgs]"
    by (simp only: map_fst_enumerate add_0)
  finally show ?thesis .
qed

lemma upload_images_Inr:
  assumes "fst (upload_images e imgs) = Inr uploaded"
  shows "uploaded = map (\<lambda>index. uploaded_url (image_results e index)) [0..<length imgs]"
    and "\<forall>i < length imgs. signature_error (image_results e i) = None"
    and "\<forall>i < length imgs. UploadImage (imgs ! i) (Some i) \<in> set (snd (upload_images e imgs))"
proof -
  let ?rs = "map (image_results e) [0..<length imgs]"
  have rs: "map (\<lambda>(index, image). image_results e index) (enumerate 0 imgs) = ?rs"
    by (rule map_enumerate_index)
  have nn: "non_null (map signature_error ?rs) = []" and up: "uploaded = map uploaded_url ?rs"
    using assms unfolding upload_images_def Let_def rs
    by (auto split: list.splits)
  show "uploaded = map (\<lambda>index. uploaded_url (image_results e index)) [0..<length imgs]"
    using up by simp
  show sig: "\<forall>i < length imgs. signature_error (image_results e i) = None"
    using nn by (auto simp: non_null_eq_Nil)
  show "\<forall>i < length imgs. UploadImage (imgs ! i) (Some i) \<in> set (snd (upload_images e imgs))"
  proof (intro allI impI)
    fix i assume i: "i < length imgs"
    then have "(i, imgs ! i) \<in> set (enumerate 0 imgs)"
      by (simp add: in_set_enumerate_eq)
    with sig i show "UploadImage (imgs ! i) (Some i) \<in> set (snd (upload_images e imgs))"
      by (force simp: upload_images_def Let_def)
  qed
qed

lemma compose_body_Inr:
  assumes "fst (compose_body e s) = Inr (b, urls)"
  shows "urls = uploaded_urls e s"
    and "b = draft_text s
           @ (if truthy (videoEmbedUrl s) then blank_line @ or_empty (videoEmbedUrl s) else [])
           @ (if urls = [] then [] else blank_line @ image_markup urls)
           @ (case selectedGif s of None \<Rightarrow> []
              | Some g \<Rightarrow> blank_line @ ''![gif]('' @ downsized_medium_url g @ '')'')"
    and "\<forall>i < length (images s). signature_error (image_results e i) = None"
    and "\<forall>i < length (images s).
           UploadImage (images s ! i) (Some i) \<in> set (snd (compose_body e s))"
proof -
  obtain uploaded requests where ui: "upload_images e (images s) = (uploaded, requests)"
    by (cases "upload_images e (images s)")
  show u: "urls = uploaded_urls e s"
  proof (cases "images s = []")
    case True
    with assms show ?thesis
      by (auto simp: compose_body_def Let_def uploaded_urls_def)
  next
    case False
    with assms ui obtain xs where xs: "uploaded = Inr xs" "urls = non_null xs"
      by (auto simp: compose_body_def Let_def split: sum.splits)
    with ui upload_images_Inr(1) [of e "images s" xs] show ?thesis
      by (simp add: uploaded_urls_def)
  qed
  show "b = draft_text s
           @ (if truthy (videoEmbedUrl s) then blank_line @ or_empty (videoEmbedUrl s) else [])
           @ (if urls = [] then [] else blank_line @ image_markup urls)
           @ (case selectedGif s of None \<Rightarrow> []
              | Some g \<Rightarrow> blank_line @ ''![gif]('' @ downsized_medium_url g @ '')'')"
    using assms ui
    by (auto simp: compose_body_def Let_def split: sum.splits option.splits if_splits)
  show "\<forall>i < length (images s). signature_error (image_results e i) = None"
  proof (cases "images s = []")
    case True
    then show ?thesis by simp
  next
    case False
    with assms ui obtain xs where "uploaded = Inr xs"
      by (auto simp: compose_body_def Let_def split: sum.splits)
    with ui upload_images_Inr(2) [of e "images s" xs] show ?thesis by simp
  qed
  show "\<forall>i < length (images s).
           UploadImage (images s ! i) (Some i) \<in> set (snd (compose_body e s))"
  proof (cases "images s = []")
    case True
    then show ?thesis by simp
  next
    case False
    with assms ui obtain xs where xs: "uploaded = Inr xs"
      by (auto simp: compose_body_def Let_def split: sum.splits)
    have "snd (compose_body e s) = requests"
      using False ui xs by (simp add: compose_body_def Let_def)
    with ui xs upload_images_Inr(3) [of e "images s" xs] show ?thesis by simp
  qed
qed

text \<open>
  The call of \<^verbatim>\<open>getFileSignature\<close> is outside the \<^verbatim>\<open>try\<close> of the upload: when it
  fails for one image, \<^verbatim>\<open>handleComment\<close> itself is rejected before any body is composed,
  nothing is submitted, and \<^verbatim>\<open>isLoading\<close> stays set.
\<close>

lemma signature_failure_rejects:
  assumes "truthy (user p)" and "\<not> nothing_to_post s"
    and "i < length (images s)" and "image_results e i = SignatureFailed err"
  shows "thrown (handleComment p e s) \<noteq> None"
    and "isLoading (final (handleComment p e s))"
    and "submissions p (handleComment p e s) = []"
proof -
  let ?rs = "map (image_results e) [0..<length (images s)]"
  have rs: "map (\<lambda>(index, image). image_results e index) (enumerate 0 (images s)) = ?rs"
    by (rule map_enumerate_index)
  have "Some err \<in> set (map signature_error ?rs)"
    using assms(3,4) by (force simp: image_iff)
  then have "non_null (map signature_error ?rs) \<noteq> []"
    unfolding non_null_eq_Nil by blast
  then obtain err' errs where nn: "non_null (map signature_error ?rs) = err' # errs"
    by (cases "non_null (map signature_error ?rs)") auto
  have up: "fst (upload_images e (images s)) = Inl err'"
    unfolding upload_images_def Let_def rs nn by simp
  have ne: "images s \<noteq> []" using assms(3) by auto
  obtain requests where cb: "compose_body e s = (Inl err', requests)"
    using up ne
    by (cases "upload_images e (images s)") (auto simp: compose_body_def Let_def)
  have run: "handleComment p e s =
      \<lparr>final = s\<lparr>isLoading := True, uploadProgress := reported_progress e\<rparr>,
       effects = requests, thrown = Some err'\<rparr>"
    using assms(1,2) cb ne by (simp add: handleComment_def Let_def)
  show "thrown (handleComment p e s) \<noteq> None" by (simp add: run)
  show "isLoading (final (handleComment p e s))" by (simp add: run)
  show "submissions p (handleComment p e s) = []"
    using compose_body_no_ledger [of "or_empty (user p)" e s] cb
    by (simp add: run submissions_def)
qed

lemma split_on_no_sep: "sep \<notin> set x \<Longrightarrow> split_on sep x = [x]"
  by (induction x) auto

lemma split_on_append_sep:
  "sep \<notin> set x \<Longrightarrow> split_on sep (x @ sep # rest) = x # split_on sep rest"
  by (induction x) auto

lemma split_on_join:
  "xs \<noteq> [] \<Longrightarrow> \<forall>x \<in> set xs. sep \<notin> set x \<Longrightarrow> split_on sep (join_with [sep] xs) = xs"
  by (induction "[sep]" xs rule: join_with.induct)
     (simp_all add: split_on_no_sep split_on_append_sep)

lemma uploaded_urls_all:
  assumes "\<forall>i < n. image_results e i = Uploaded (u i)"
  shows "non_null (map (\<lambda>index. uploaded_url (image_results e index)) [0..<n]) = map u [0..<n]"
  using assms by (induction n) (simp_all add: non_null_append)

text \<open>
  The order of composition, for the runs that reach a submission: the body of the comment
  is the draft text, then the video embed reference when there is one, then one line
  \<^verbatim>\<open>![image](url)\<close> for each image whose upload succeeded, in the order of the images
  and joined by newlines, then the line of the GIF when one is selected; each part that is
  present follows a blank line. The list of images of the metadata holds the same URLs.
  When all the \<open>N\<close> uploads succeed the image part is exactly the \<open>N\<close> lines of the
  images in their order. A run in which \<^verbatim>\<open>getFileSignature\<close> fails for an image makes
  no submission, so this result says nothing about it: see \<open>signature_failure_rejects\<close>
  and the example that follows.
\<close>

lemma body_composition:
  assumes "ops \<in> set (submissions p (handleComment p e s))"
  shows "\<exists>c rest. ops = Comment c # rest
     \<and> images_meta (json_metadata c) = uploaded_urls e s
     \<and> body c =
         draft_text s
           @ (if truthy (videoEmbedUrl s) then blank_line @ or_empty (videoEmbedUrl s) else [])
           @ (if uploaded_urls e s = [] then []
              else blank_line @ join_with [CHR 0x0A] (map image_line (uploaded_urls e s)))
           @ (case selectedGif s of None \<Rightarrow> []
              | Some g \<Rightarrow> blank_line @ ''![gif]('' @ downsized_medium_url g @ '')'')
     \<and> (\<forall>i < length (images s).
           UploadImage (images s ! i) (Some i) \<in> set (effects (handleComment p e s)))
     \<and> (\<forall>u. (\<forall>i < length (images s). image_results e i = Uploaded (u i)) \<longrightarrow>
           uploaded_urls e s = map u [0..<length (images s)]
           \<and> (images s \<noteq> [] \<and> (\<forall>i < length (images s). CHR 0x0A \<notin> set (u i)) \<longrightarrow>
                split_on (CHR 0x0A) (join_with [CHR 0x0A] (map image_line (uploaded_urls e s)))
                  = map (\<lambda>i. image_line (u i)) [0..<length (images s)]))"
  using assms
proof (rule handleComment_submitted)
  fix b urls
  assume logged: "truthy (user p)"
    and cb: "fst (compose_body e s) = Inr (b, urls)"
    and b: "b \<noteq> []"
    and ops: "ops = Comment (published_comment p e b urls)
             # (if truthy (videoEmbedUrl s)
                then [CommentOptions (options_op (or_empty (user p)) (make_permlink (now e)))]
                else [])"
  let ?c = "published_comment p e b urls"
  have urls: "urls = uploaded_urls e s"
    using cb by (rule compose_body_Inr(1))
  have markup: "image_markup urls = join_with [CHR 0x0A] (map image_line urls)"
    by (simp add: image_markup_def)
  have 1: "images_meta (json_metadata ?c) = uploaded_urls e s"
    by (simp add: published_comment_def urls)
  have 2: "body ?c =
         draft_text s
           @ (if truthy (videoEmbedUrl s) then blank_line @ or_empty (videoEmbedUrl s) else [])
           @ (if uploaded_urls e s = [] then []
              else blank_line @ join_with [CHR 0x0A] (map image_line (uploaded_urls e s)))
           @ (case selectedGif s of None \<Rightarrow> []
              | Some g \<Rightarrow> blank_line @ ''![gif]('' @ downsized_medium_url g @ '')'')"
    using compose_body_Inr(2) [OF cb] markup urls by (simp add: published_comment_def)
  have eff: "set (snd (compose_body e s)) \<subseteq> set (effects (handleComment p e s))"
    using handleComment_run [OF logged submitted_not_nothing [OF assms] cb b]
    by (simp add: Let_def)
  have 3: "\<forall>i < length (images s).
           UploadImage (images s ! i) (Some i) \<in> set (effects (handleComment p e s))"
    using compose_body_Inr(4) [OF cb] eff by blast
  have 4: "\<forall>u. (\<forall>i < length (images s). image_results e i = Uploaded (u i)) \<longrightarrow>
           uploaded_urls e s = map u [0..<length (images s)]
           \<and> (images s \<noteq> [] \<and> (\<forall>i < length (images s). CHR 0x0A \<notin> set (u i)) \<longrightarrow>
                split_on (CHR 0x0A) (join_with [CHR 0x0A] (map image_line (uploaded_urls e s)))
                  = map (\<lambda>i. image_line (u i)) [0..<length (images s)])"
  proof (intro allI impI conjI)
    fix u
    assume all: "\<forall>i < length (images s). image_results e i = Uploaded (u i)"
    show eq: "uploaded_urls e s = map u [0..<length (images s)]"
      unfolding uploaded_urls_def using all by (rule uploaded_urls_all)
    assume lines: "images s \<noteq> [] \<and> (\<forall>i < length (images s). CHR 0x0A \<notin> set (u i))"
    let ?X = "map (\<lambda>i. image_line (u i)) [0..<length (images s)]"
    have m: "map image_line (uploaded_urls e s) = ?X"
      by (simp add: eq comp_def)
    have ne: "?X \<noteq> []"
      using lines by simp
    have ns: "\<forall>x \<in> set ?X. CHR 0x0A \<notin> set x"
      using lines by (auto simp: image_line_def)
    have "split_on (CHR 0x0A) (join_with [CHR 0x0A] ?X) = ?X"
      using ne ns by (rule split_on_join)
    then show "split_on (CHR 0x0A)
         (join_with [CHR 0x0A] (map image_line (uploaded_urls e s)))
        = map (\<lambda>i. image_line (u i)) [0..<length (images s)]"
      by (simp only: m)
  qed
  from ops 1 2 3 4 show ?thesis by (intro exI [of _ ?c] exI conjI) simp_all
qed

lemma demo_images_submissions:
  "submissions demo_video_props (handleComment demo_video_props demo_images_env demo_images_state)
     = [demo_images_ops]"
  by code_simp

lemma demo_partial_submissions:
  "submissions demo_video_props (handleComment demo_video_props demo_partial_env demo_images_state)
     = [demo_partial_ops]"
  by code_simp

lemma demo_partial_urls:
  "uploaded_urls demo_partial_env demo_images_state
     = [''https://images.hive.blog/DQm'', ''https://images.hive.blog/DQmxx'']"
  by code_simp

lemma demo_images_all:
  "\<forall>i < length (images demo_images_state). image_results demo_images_env i = Uploaded (demo_url i)"
  by (simp add: demo_images_env_def demo_env_def)

lemma demo_images_lines:
  "images demo_images_state \<noteq> []
   \<and> (\<forall>i < length (images demo_images_state). CHR 0x0A \<notin> set (demo_url i))"
  by (simp add: demo_images_state_def demo_url_def)

lemma body_composition_witness:
  "demo_images_ops \<in> set (submissions demo_video_props
       (handleComment demo_video_props demo_images_env demo_images_state))
   \<and> length (images demo_images_state) = 3
   \<and> image_results demo_images_env 0 = Uploaded (demo_url 0)
   \<and> image_results demo_images_env 1 = Uploaded (demo_url 1)
   \<and> image_results demo_images_env 2 = Uploaded (demo_url 2)
   \<and> split_on (CHR 0x0A)
        (join_with [CHR 0x0A] (map image_line (uploaded_urls demo_images_env demo_images_state)))
       = map (\<lambda>i. image_line (demo_url i)) [0..<length (images demo_images_state)]
   \<and> demo_partial_ops \<in> set (submissions demo_video_props
       (handleComment demo_video_props demo_partial_env demo_images_state))
   \<and> (\<exists>c rest. demo_partial_ops = Comment c # rest
         \<and> images_meta (json_metadata c)
             = [''https://images.hive.blog/DQm'', ''https://images.hive.blog/DQmxx''])"
proof -
  have m: "demo_images_ops \<in> set (submissions demo_video_props
       (handleComment demo_video_props demo_images_env demo_images_state))"
    by (simp only: demo_images_submissions list.set_intros)
  obtain c rest where
    a: "\<forall>u. (\<forall>i < length (images demo_images_state).
               image_results demo_images_env i = Uploaded (u i)) \<longrightarrow>
           uploaded_urls demo_images_env demo_images_state
             = map u [0..<length (images demo_images_state)]
           \<and> (images demo_images_state \<noteq> []
                \<and> (\<forall>i < length (images demo_images_state). CHR 0x0A \<notin> set (u i)) \<longrightarrow>
                split_on (CHR 0x0A)
                  (join_with [CHR 0x0A]
                     (map image_line (uploaded_urls demo_images_env demo_images_state)))
                  = map (\<lambda>i. image_line (u i)) [0..<length (images demo_images_state)])"
    using body_composition [OF m] by (elim exE conjE)
  have l: "split_on (CHR 0x0A)
        (join_with [CHR 0x0A] (map image_line (uploaded_urls demo_images_env demo_images_state)))
       = map (\<lambda>i. image_line (demo_url i)) [0..<length (images demo_images_state)]"
    using a [THEN spec, of demo_url, THEN mp, OF demo_images_all, THEN conjunct2, THEN mp,
        OF demo_images_lines] .
  have m': "demo_partial_ops \<in> set (submissions demo_video_props
       (handleComment demo_video_props demo_partial_env demo_images_state))"
    by (simp only: demo_partial_submissions list.set_intros)
  obtain c' rest' where c': "demo_partial_ops = Comment c' # rest'"
    and i': "images_meta (json_metadata c') = uploaded_urls demo_partial_env demo_images_state"
    using body_composition [OF m'] by (elim exE conjE)
  have p: "\<exists>c rest. demo_partial_ops = Comment c # rest
         \<and> images_meta (json_metadata c)
             = [''https://images.hive.blog/DQm'', ''https://images.hive.blog/DQmxx'']"
    using c' i' by (intro exI [of _ c'] exI [of _ rest']) (simp only: demo_partial_urls simp_thms)
  have n: "length (images demo_images_state) = 3"
    by (simp add: demo_images_state_def)
  have r: "image_results demo_images_env i = Uploaded (demo_url i)" for i
    by (simp add: demo_images_env_def)
  from m n r l m' p show ?thesis by (intro conjI)
qed

text \<open>
  C4. The body is composed in the fixed order text, video embed reference, one image line
  for each uploaded image, GIF line, and an image whose upload fails is left out of the
  list of URLs without aborting the other uploads. The code does not do the last part
  when the failure is in the signing of the image, which is the first step of its upload:
  \<^verbatim>\<open>getFileSignature\<close> is awaited outside the \<^verbatim>\<open>try\<close> that turns a failed
  \<^verbatim>\<open>uploadImage\<close> into \<^verbatim>\<open>null\<close>, under a \<^verbatim>\<open>Promise.all\<close> that is itself outside
  the \<^verbatim>\<open>try\<close> of the handler. For a draft of three images where the signing of the
  second is rejected with \<^verbatim>\<open>no key\<close> and the two others would upload, \<^verbatim>\<open>handleComment\<close>
  is rejected with that error: the two other uploads are started and their URLs thrown
  away, no body is composed, nothing is submitted, no notification and no alert is
  issued, and \<^verbatim>\<open>isLoading\<close> stays set. With the same draft and the failure in
  \<^verbatim>\<open>uploadImage\<close> instead, the comment is submitted with the two other images; and the
  thumbnail publisher, which signs inside its \<^verbatim>\<open>try\<close>, survives a rejected signing.
\<close>

theorem signing_failure_aborts_submission:
  "image_results demo_unsigned_env 0 = Uploaded ''https://images.hive.blog/DQm''
   \<and> image_results demo_unsigned_env 1 = SignatureFailed ''no key''
   \<and> image_results demo_unsigned_env 2 = Uploaded ''https://images.hive.blog/DQmxx''
   \<and> thrown (handleComment demo_video_props demo_unsigned_env demo_images_state)
       = Some ''no key''
   \<and> submissions demo_video_props
        (handleComment demo_video_props demo_unsigned_env demo_images_state) = []
   \<and> notifications (handleComment demo_video_props demo_unsigned_env demo_images_state) = []
   \<and> alerts (handleComment demo_video_props demo_unsigned_env demo_images_state) = []
   \<and> isLoading (final (handleComment demo_video_props demo_unsigned_env demo_images_state))
   \<and> effects (handleComment demo_video_props demo_unsigned_env demo_images_state)
       = [GetFileSignature (images demo_images_state ! 0),
          GetFileSignature (images demo_images_state ! 1),
          GetFileSignature (images demo_images_state ! 2),
          UploadImage (images demo_images_state ! 0) (Some 0),
          UploadImage (images demo_images_state ! 2) (Some 2)]
   \<and> submissions demo_video_props
        (handleComment demo_video_props demo_partial_env demo_images_state)
       = [demo_partial_ops]
   \<and> signature_result demo_thumb_env = Inl ''signing failed''
   \<and> fst (publish_thumbnail demo_platform demo_thumb_env demo_clip ''JPEG'')
       = Inr ''https://ipfs.3speak.tv/ipfs/QmXyz''"
proof -
  let ?r = "handleComment demo_video_props demo_unsigned_env demo_images_state"
  have inputs: "image_results demo_unsigned_env 0 = Uploaded ''https://images.hive.blog/DQm''"
    "image_results demo_unsigned_env 1 = SignatureFailed ''no key''"
    "image_results demo_unsigned_env 2 = Uploaded ''https://images.hive.blog/DQmxx''"
    by code_simp+
  have run: "?r =
      \<lparr>final = demo_images_state\<lparr>isLoading := True, uploadProgress := []\<rparr>,
       effects = [GetFileSignature (images demo_images_state ! 0),
                  GetFileSignature (images demo_images_state ! 1),
                  GetFileSignature (images demo_images_state ! 2),
                  UploadImage (images demo_images_state ! 0) (Some 0),
                  UploadImage (images demo_images_state ! 2) (Some 2)],
       thrown = Some ''no key''\<rparr>"
    by code_simp
  have out: "thrown ?r = Some ''no key''" "submissions demo_video_props ?r = []"
    "notifications ?r = []" "alerts ?r = []" "isLoading (final ?r)"
    unfolding run by (simp_all add: submissions_def notifications_def alerts_def)
  have eff: "effects ?r
       = [GetFileSignature (images demo_images_state ! 0),
          GetFileSignature (images demo_images_state ! 1),
          GetFileSignature (images demo_images_state ! 2),
          UploadImage (images demo_images_state ! 0) (Some 0),
          UploadImage (images demo_images_state ! 2) (Some 2)]"
    unfolding run by simp
  have sibling: "signature_result demo_thumb_env = Inl ''signing failed''"
    "fst (publish_thumbnail demo_platform demo_thumb_env demo_clip ''JPEG'')
       = Inr ''https://ipfs.3speak.tv/ipfs/QmXyz''"
    by code_simp+
  from inputs out eff demo_partial_submissions sibling show ?thesis by (intro conjI)
qed

section \<open>The tags of the composed body\<close>

lemma takeWhile_append_stop:
  "b = [] \<or> \<not> P (hd b) \<Longrightarrow> takeWhile P (a @ b) = takeWhile P a"
  by (induction a) (auto simp: takeWhile_eq_Nil_iff)

lemma tokens_append:
  "b = [] \<or> \<not> is_word_char (hd b) \<Longrightarrow>
     all_hashtag_tokens (a @ b) = all_hashtag_tokens a @ all_hashtag_tokens b"
  by (induction a) (simp_all add: takeWhile_append_stop)

lemma extractHashtags_append:
  "b = [] \<or> \<not> is_word_char (hd b) \<Longrightarrow>
     extractHashtags (a @ b) = extractHashtags a @ extractHashtags b"
  by (simp add: extractHashtags_tokens tokens_append)

lemma not_word_punctuation:
  "\<not> is_word_char (CHR 0x0A)" "\<not> is_word_char CHR '')''" "\<not> is_word_char CHR ''!''"
  by (simp_all add: is_word_char_def)

lemma extractHashtags_blank_line: "extractHashtags (blank_line @ x) = extractHashtags x"
  by (simp add: blank_line_def)

lemma extractHashtags_close_paren: "extractHashtags (url @ '')'') = extractHashtags url"
proof -
  have "extractHashtags (url @ '')'') = extractHashtags url @ extractHashtags '')''"
    by (rule extractHashtags_append) (simp add: not_word_punctuation)
  then show ?thesis by simp
qed

lemma extractHashtags_image_line: "extractHashtags (image_line url) = extractHashtags url"
  by (simp add: image_line_def extractHashtags_close_paren)

lemma extractHashtags_image_markup:
  "extractHashtags (image_markup urls @ rest) =
     concat (map extractHashtags urls) @ extractHashtags rest"
  if "rest = [] \<or> \<not> is_word_char (hd rest)"
  unfolding image_markup_def
proof (induction urls)
  case Nil
  show ?case by simp
next
  case (Cons u us)
  show ?case
  proof (cases us)
    case Nil
    have "extractHashtags (image_line u @ rest) = extractHashtags (image_line u) @ extractHashtags rest"
      using that by (rule extractHashtags_append)
    with Nil show ?thesis by (simp add: extractHashtags_image_line)
  next
    case (Cons v vs)
    let ?tail = "CHR 0x0A # join_with [CHR 0x0A] (map image_line (v # vs)) @ rest"
    have "extractHashtags (image_line u @ ?tail)
        = extractHashtags (image_line u) @ extractHashtags ?tail"
      by (rule extractHashtags_append) (simp add: not_word_punctuation)
    with Cons Cons.IH show ?thesis
      by (simp add: extractHashtags_image_line)
  qed
qed

lemma extractHashtags_body:
  "extractHashtags
     (txt
        @ (if v then blank_line @ vurl else [])
        @ (if urls = [] then [] else blank_line @ image_markup urls)
        @ (case g of None \<Rightarrow> [] | Some gurl \<Rightarrow> blank_line @ ''![gif]('' @ gurl @ '')''))
   = extractHashtags txt
       @ (if v then extractHashtags vurl else [])
       @ concat (map extractHashtags urls)
       @ (case g of None \<Rightarrow> [] | Some gurl \<Rightarrow> extractHashtags gurl)"
proof -
  let ?G = "case g of None \<Rightarrow> [] | Some gurl \<Rightarrow> blank_line @ ''![gif]('' @ gurl @ '')''"
  let ?I = "if urls = [] then [] else blank_line @ image_markup urls"
  let ?V = "if v then blank_line @ vurl else []"
  have stop: "x = [] \<or> \<not> is_word_char (hd x)"
    if "x = [] \<or> hd x = CHR 0x0A" for x
    using that by (auto simp: not_word_punctuation)
  have G0: "?G = [] \<or> hd ?G = CHR 0x0A"
    by (simp add: blank_line_def split: option.splits)
  have IG0: "?I @ ?G = [] \<or> hd (?I @ ?G) = CHR 0x0A"
    using G0 by (auto simp: blank_line_def)
  have VIG0: "?V @ ?I @ ?G = [] \<or> hd (?V @ ?I @ ?G) = CHR 0x0A"
    using IG0 by (auto simp: blank_line_def)
  have G: "extractHashtags ?G = (case g of None \<Rightarrow> [] | Some gurl \<Rightarrow> extractHashtags gurl)"
    by (simp add: extractHashtags_blank_line extractHashtags_close_paren split: option.splits)
  have IG: "extractHashtags (?I @ ?G) = concat (map extractHashtags urls) @ extractHashtags ?G"
    using extractHashtags_image_markup [OF stop [OF G0], of urls]
    by (simp add: extractHashtags_blank_line)
  have "extractHashtags (?V @ ?I @ ?G)
      = (if v then extractHashtags vurl else []) @ extractHashtags (?I @ ?G)"
    using extractHashtags_append [OF stop [OF IG0], of vurl]
    by (simp add: extractHashtags_blank_line)
  moreover have "extractHashtags (txt @ ?V @ ?I @ ?G)
      = extractHashtags txt @ extractHashtags (?V @ ?I @ ?G)"
    using stop [OF VIG0] by (rule extractHashtags_append)
  ultimately show ?thesis
    using IG G by simp
qed

text \<open>
  C10. The tags of a submission are computed from the whole composed body, after the
  video embed reference, the image lines and the GIF line are appended: the hashtags of
  the body are those of the draft text, then those of the embed reference, of every
  uploaded image URL and of the URL of the GIF, so a \<^verbatim>\<open>#\<close> with word characters inside any
  of these gives a tag of the published metadata.
\<close>

theorem tags_of_composed_body:
  assumes "ops \<in> set (submissions p (handleComment p e s))"
  shows "\<exists>c rest. ops = Comment c # rest
     \<and> tags (json_metadata c)
         = spread_new_Set
             ((if pp p = ''snaps'' then [or_empty (community_tag e), ''snaps''] else [])
                @ extractHashtags (body c))
     \<and> extractHashtags (body c)
         = extractHashtags (draft_text s)
             @ (if truthy (videoEmbedUrl s) then extractHashtags (or_empty (videoEmbedUrl s))
                else [])
             @ concat (map extractHashtags (uploaded_urls e s))
             @ (case selectedGif s of None \<Rightarrow> []
                | Some g \<Rightarrow> extractHashtags (downsized_medium_url g))
     \<and> (\<forall>t. (truthy (videoEmbedUrl s) \<and> t \<in> set (extractHashtags (or_empty (videoEmbedUrl s))))
              \<or> (\<exists>u \<in> set (uploaded_urls e s). t \<in> set (extractHashtags u))
              \<or> (\<exists>g. selectedGif s = Some g \<and> t \<in> set (extractHashtags (downsized_medium_url g)))
            \<longrightarrow> t \<in> set (tags (json_metadata c)))"
  using assms
proof (rule handleComment_submitted)
  fix b urls
  assume cb: "fst (compose_body e s) = Inr (b, urls)"
    and ops: "ops = Comment (published_comment p e b urls)
             # (if truthy (videoEmbedUrl s)
                then [CommentOptions (options_op (or_empty (user p)) (make_permlink (now e)))]
                else [])"
  let ?c = "published_comment p e b urls"
  let ?seed = "if pp p = ''snaps'' then [or_empty (community_tag e), ''snaps''] else []"
  have urls: "urls = uploaded_urls e s"
    using cb by (rule compose_body_Inr(1))
  have bc: "body (published_comment p e b u) = b" for u
    by (simp add: published_comment_def)
  have 1: "tags (json_metadata ?c) = spread_new_Set (?seed @ extractHashtags (body ?c))"
    by (simp add: published_comment_def)
  have "b = draft_text s
           @ (if truthy (videoEmbedUrl s) then blank_line @ or_empty (videoEmbedUrl s) else [])
           @ (if urls = [] then [] else blank_line @ image_markup urls)
           @ (case map_option downsized_medium_url (selectedGif s) of None \<Rightarrow> []
              | Some gurl \<Rightarrow> blank_line @ ''![gif]('' @ gurl @ '')'')"
    using compose_body_Inr(2) [OF cb] by (simp split: option.splits)
  then have "extractHashtags b
         = extractHashtags (draft_text s)
             @ (if truthy (videoEmbedUrl s) then extractHashtags (or_empty (videoEmbedUrl s))
                else [])
             @ concat (map extractHashtags urls)
             @ (case map_option downsized_medium_url (selectedGif s) of None \<Rightarrow> []
                | Some gurl \<Rightarrow> extractHashtags gurl)"
    by (simp only: extractHashtags_body)
  then have 2: "extractHashtags (body ?c)
         = extractHashtags (draft_text s)
             @ (if truthy (videoEmbedUrl s) then extractHashtags (or_empty (videoEmbedUrl s))
                else [])
             @ concat (map extractHashtags (uploaded_urls e s))
             @ (case selectedGif s of None \<Rightarrow> []
                | Some g \<Rightarrow> extractHashtags (downsized_medium_url g))"
    by (simp add: bc urls split: option.splits)
  have 3: "\<forall>t. (truthy (videoEmbedUrl s) \<and> t \<in> set (extractHashtags (or_empty (videoEmbedUrl s))))
              \<or> (\<exists>u \<in> set (uploaded_urls e s). t \<in> set (extractHashtags u))
              \<or> (\<exists>g. selectedGif s = Some g \<and> t \<in> set (extractHashtags (downsized_medium_url g)))
            \<longrightarrow> t \<in> set (tags (json_metadata ?c))"
    unfolding 1 set_spread 2 by (auto split: option.splits)
  from ops 1 2 3 show ?thesis by (intro exI [of _ ?c] exI conjI) simp_all
qed

lemma demo_video_hashtag:
  "truthy (videoEmbedUrl demo_video_state)
   \<and> ''t'' \<in> set (extractHashtags (or_empty (videoEmbedUrl demo_video_state)))"
  by code_simp

theorem tags_of_composed_body_witness:
  "demo_video_ops \<in> set (submissions demo_video_props
       (handleComment demo_video_props demo_env demo_video_state))
   \<and> truthy (videoEmbedUrl demo_video_state)
   \<and> ''t'' \<in> set (extractHashtags (or_empty (videoEmbedUrl demo_video_state)))
   \<and> ''t'' \<notin> set (extractHashtags (draft_text demo_video_state))
   \<and> (\<exists>c rest. demo_video_ops = Comment c # rest \<and> ''t'' \<in> set (tags (json_metadata c)))"
proof -
  have m: "demo_video_ops \<in> set (submissions demo_video_props
       (handleComment demo_video_props demo_env demo_video_state))"
    by (simp only: demo_video_submissions list.set_intros)
  obtain c rest where c: "demo_video_ops = Comment c # rest"
    and t: "\<forall>t. (truthy (videoEmbedUrl demo_video_state)
                 \<and> t \<in> set (extractHashtags (or_empty (videoEmbedUrl demo_video_state))))
              \<or> (\<exists>u \<in> set (uploaded_urls demo_env demo_video_state). t \<in> set (extractHashtags u))
              \<or> (\<exists>g. selectedGif demo_video_state = Some g
                       \<and> t \<in> set (extractHashtags (downsized_medium_url g)))
            \<longrightarrow> t \<in> set (tags (json_metadata c))"
    using tags_of_composed_body [OF m] by (elim exE conjE)
  have "''t'' \<in> set (tags (json_metadata c))"
    using t [THEN spec, of "''t''", THEN mp, OF disjI1, OF demo_video_hashtag] .
  with c have e: "\<exists>c rest. demo_video_ops = Comment c # rest \<and> ''t'' \<in> set (tags (json_metadata c))"
    by (intro exI [of _ c] exI [of _ rest] conjI)
  have n: "''t'' \<notin> set (extractHashtags (draft_text demo_video_state))"
    by code_simp
  from m demo_video_hashtag e n show ?thesis by (intro conjI) simp_all
qed

section \<open>The permlink\<close>

lemma toISOString_examples:
  "toISOString 0 = ''1970-01-01T00:00:00.000Z''"
  "toISOString 1709251199999 = ''2024-02-29T23:59:59.999Z''"
  by code_simp+

declare decimal.simps [simp del]

lemma decimal_small: "n < 10 \<Longrightarrow> decimal n = [digit_char n]"
  by (subst decimal.simps) simp

lemma decimal_big: "\<not> n < 10 \<Longrightarrow> decimal n = decimal (n div 10) @ [digit_char n]"
  by (subst decimal.simps) simp

lemma of_char_digit: "(of_char (digit_char n) :: nat) = 48 + n mod 10"
proof -
  have "48 + n mod 10 < 256"
    using mod_less_divisor [of 10 n] by linarith
  then show ?thesis by (simp add: digit_char_def)
qed

lemma digit_plain: "is_alnum_char (digit_char n) \<and> toLowerCase_char (digit_char n) = digit_char n"
proof -
  have "n mod 10 < 10" by simp
  then show ?thesis
    unfolding is_alnum_char_def toLowerCase_char_def Let_def of_char_digit by auto
qed

lemma digit_zero: "CHR ''0'' = digit_char 0"
  by code_simp

lemma decimal_plain: "\<forall>c \<in> set (decimal n). is_alnum_char c \<and> toLowerCase_char c = c"
proof (induction n rule: decimal.induct)
  case (1 n)
  show ?case
  proof (cases "n < 10")
    case True
    then show ?thesis by (simp add: decimal_small digit_plain)
  next
    case False
    with 1 show ?thesis by (simp add: decimal_big digit_plain)
  qed
qed

lemma zero_pad_plain: "\<forall>c \<in> set (zero_pad k n). is_alnum_char c \<and> toLowerCase_char c = c"
  using decimal_plain [of n] digit_plain [of 0] by (auto simp: zero_pad_def digit_zero)

lemma permlink_plain:
  assumes "\<forall>c \<in> set s. is_alnum_char c \<and> toLowerCase_char c = c"
  shows "toLowerCase (remove_non_alnum (s @ rest)) = s @ toLowerCase (remove_non_alnum rest)"
proof -
  have "filter is_alnum_char s = s" using assms by (simp add: filter_id_conv)
  moreover have "map toLowerCase_char s = s" using assms by (simp add: map_idI)
  ultimately show ?thesis by (simp add: toLowerCase_def remove_non_alnum_def)
qed

lemma permlink_separators:
  "toLowerCase (remove_non_alnum (CHR ''-'' # rest)) = toLowerCase (remove_non_alnum rest)"
  "toLowerCase (remove_non_alnum (CHR ''+'' # rest)) = toLowerCase (remove_non_alnum rest)"
  "toLowerCase (remove_non_alnum (CHR '':'' # rest)) = toLowerCase (remove_non_alnum rest)"
  "toLowerCase (remove_non_alnum (CHR ''.'' # rest)) = toLowerCase (remove_non_alnum rest)"
  "toLowerCase (remove_non_alnum (CHR ''T'' # rest)) = CHR ''t'' # toLowerCase (remove_non_alnum rest)"
  "toLowerCase (remove_non_alnum ''Z'') = ''z''"
  by code_simp+

lemma permlink_year:
  "toLowerCase (remove_non_alnum (year_string y @ rest))
     = year_digits y @ toLowerCase (remove_non_alnum rest)"
  by (simp add: year_string_def year_digits_def permlink_plain [OF zero_pad_plain]
        permlink_separators)

lemma make_permlink_format:
  "make_permlink t =
     year_digits (YearFromTime t) @ zero_pad 2 (MonthFromTime t) @ zero_pad 2 (DateFromTime t)
       @ ''t'' @ zero_pad 2 (HourFromTime t) @ zero_pad 2 (MinFromTime t)
       @ zero_pad 2 (SecFromTime t) @ zero_pad 3 (msFromTime t) @ ''z''"
  unfolding make_permlink_def toISOString_def
  by (simp only: permlink_year permlink_plain [OF zero_pad_plain] permlink_separators
        append_Cons append_Nil)

lemma zero_pad_3:
  assumes "n < 1000"
  shows "zero_pad 3 n = [digit_char (n div 100), digit_char (n div 10), digit_char n]"
proof -
  consider "n < 10" | "10 \<le> n" "n < 100" | "100 \<le> n"
    by linarith
  then show ?thesis
  proof cases
    case 1
    then have "n div 100 = 0" "n div 10 = 0" by simp_all
    with 1 show ?thesis
      by (simp add: zero_pad_def decimal_small digit_zero numeral_2_eq_2)
  next
    case 2
    then have "n div 100 = 0" "n div 10 < 10" "\<not> n < 10" by simp_all
    then show ?thesis
      by (simp add: zero_pad_def decimal_small decimal_big digit_zero)
  next
    case 3
    with assms have "\<not> n < 10" "\<not> n div 10 < 10" "n div 10 div 10 < 10" by simp_all
    moreover have "n div 10 div 10 = n div 100"
      by (simp add: div_mult2_eq [symmetric])
    ultimately show ?thesis
      by (simp add: zero_pad_def decimal_small decimal_big)
  qed
qed

lemma digit_char_inj: "digit_char a = digit_char b \<Longrightarrow> a mod 10 = b mod 10"
proof -
  assume "digit_char a = digit_char b"
  then have "(of_char (digit_char a) :: nat) = of_char (digit_char b)" by simp
  then show ?thesis by (simp add: of_char_digit)
qed

lemma three_digits:
  assumes "(n::nat) < 1000"
  shows "n = 100 * (n div 100 mod 10) + 10 * (n div 10 mod 10) + n mod 10"
proof -
  define q where "q = n div 10"
  define r where "r = n mod 10"
  define q2 where "q2 = q div 10"
  define r2 where "r2 = q mod 10"
  have a: "n = 10 * q + r" by (simp add: q_def r_def)
  have b: "q = 10 * q2 + r2" by (simp add: q2_def r2_def)
  have c: "n div 100 = q2" by (simp add: q2_def q_def div_mult2_eq [symmetric])
  have "n div 100 < 10"
    using assms by simp
  then have d: "q2 mod 10 = q2"
    unfolding c by simp
  from a b have "n = 100 * q2 + 10 * r2 + r" by linarith
  then show ?thesis
    unfolding c d by (simp only: r2_def r_def q_def)
qed

lemma zero_pad_3_inj:
  assumes "n < 1000" and "m < 1000" and "zero_pad 3 n = zero_pad 3 m"
  shows "n = m"
proof -
  from assms have "digit_char (n div 100) = digit_char (m div 100)"
    "digit_char (n div 10) = digit_char (m div 10)" "digit_char n = digit_char m"
    by (simp_all add: zero_pad_3)
  then have "n div 100 mod 10 = m div 100 mod 10" "n div 10 mod 10 = m div 10 mod 10"
    "n mod 10 = m mod 10"
    by (auto dest: digit_char_inj)
  with three_digits [OF assms(1)] three_digits [OF assms(2)] show ?thesis by simp
qed

lemma msFromTime_less: "msFromTime t < 1000"
  by (simp add: msFromTime_def nat_less_iff)

lemma make_permlink_ms:
  assumes "make_permlink t1 = make_permlink t2"
  shows "t1 mod 1000 = t2 mod 1000"
proof -
  let ?A = "\<lambda>t. year_digits (YearFromTime t) @ zero_pad 2 (MonthFromTime t)
       @ zero_pad 2 (DateFromTime t) @ ''t'' @ zero_pad 2 (HourFromTime t)
       @ zero_pad 2 (MinFromTime t) @ zero_pad 2 (SecFromTime t)"
  have f: "make_permlink t = (?A t @ zero_pad 3 (msFromTime t)) @ ''z''" for t
    by (simp add: make_permlink_format)
  have l: "length (zero_pad 3 (msFromTime t)) = 3" for t
    by (simp add: zero_pad_3 [OF msFromTime_less])
  from assms have "?A t1 @ zero_pad 3 (msFromTime t1) = ?A t2 @ zero_pad 3 (msFromTime t2)"
    unfolding f by (simp only: append_same_eq)
  then have "zero_pad 3 (msFromTime t1) = zero_pad 3 (msFromTime t2)"
    using l [of t1] l [of t2] by (simp only: append_eq_append_conv simp_thms)
  then have "msFromTime t1 = msFromTime t2"
    using msFromTime_less by (intro zero_pad_3_inj)
  then show ?thesis
    by (simp add: msFromTime_def)
qed

lemma make_permlink_next: "make_permlink t \<noteq> make_permlink (t + 1)"
proof
  assume "make_permlink t = make_permlink (t + 1)"
  then have "(t + 1) mod 1000 = t mod 1000" by (rule make_permlink_ms [symmetric])
  then have "(1000::int) dvd (t + 1) - t" by (simp only: mod_eq_dvd_iff)
  then show False by simp
qed

lemma make_permlink_same_second:
  assumes "t1 div 1000 = t2 div 1000"
  shows "make_permlink t1 = make_permlink t2 \<longleftrightarrow> t1 = t2"
proof
  assume "make_permlink t1 = make_permlink t2"
  then have m: "t1 mod 1000 = t2 mod 1000" by (rule make_permlink_ms)
  have "t1 = 1000 * (t1 div 1000) + t1 mod 1000" by (rule mult_div_mod_eq [symmetric])
  also have "\<dots> = 1000 * (t2 div 1000) + t2 mod 1000" by (simp only: assms m)
  also have "\<dots> = t2" by (rule mult_div_mod_eq)
  finally show "t1 = t2" .
next
  assume "t1 = t2"
  then show "make_permlink t1 = make_permlink t2" by simp
qed

text \<open>
  C2, as the code has it. The permlink of a submission is the time of the submission as
  \<^verbatim>\<open>toISOString\<close> renders it, to the millisecond, without the characters that are not
  alphanumeric and in lower case: the digits of the year, month, day, a \<open>t\<close>, the digits
  of the hour, minute, second and millisecond, and a \<open>z\<close>. Two submissions one
  millisecond apart have different permlinks; two submissions within the same second
  have the same permlink only when they are at the same millisecond.
\<close>

theorem permlink_of_submission:
  "make_permlink t = toLowerCase (remove_non_alnum (toISOString t))
   \<and> make_permlink t =
       year_digits (YearFromTime t) @ zero_pad 2 (MonthFromTime t) @ zero_pad 2 (DateFromTime t)
         @ ''t'' @ zero_pad 2 (HourFromTime t) @ zero_pad 2 (MinFromTime t)
         @ zero_pad 2 (SecFromTime t) @ zero_pad 3 (msFromTime t) @ ''z''
   \<and> (ops \<in> set (submissions p (handleComment p e s)) \<longrightarrow>
        (\<exists>c rest. ops = Comment c # rest
           \<and> permlink c = toLowerCase (remove_non_alnum (toISOString (now e)))))
   \<and> make_permlink t \<noteq> make_permlink (t + 1)
   \<and> (t1 div 1000 = t2 div 1000 \<longrightarrow> (make_permlink t1 = make_permlink t2 \<longleftrightarrow> t1 = t2))"
proof (intro conjI impI)
  show "make_permlink t = toLowerCase (remove_non_alnum (toISOString t))"
    by (simp add: make_permlink_def)
  show "make_permlink t =
       year_digits (YearFromTime t) @ zero_pad 2 (MonthFromTime t) @ zero_pad 2 (DateFromTime t)
         @ ''t'' @ zero_pad 2 (HourFromTime t) @ zero_pad 2 (MinFromTime t)
         @ zero_pad 2 (SecFromTime t) @ zero_pad 3 (msFromTime t) @ ''z''"
    by (rule make_permlink_format)
  show "make_permlink t \<noteq> make_permlink (t + 1)"
    by (rule make_permlink_next)
  show "make_permlink t1 = make_permlink t2 \<longleftrightarrow> t1 = t2" if "t1 div 1000 = t2 div 1000"
    using that by (rule make_permlink_same_second)
next
  assume "ops \<in> set (submissions p (handleComment p e s))"
  then show "\<exists>c rest. ops = Comment c # rest
           \<and> permlink c = toLowerCase (remove_non_alnum (toISOString (now e)))"
    by (rule handleComment_submitted) (simp add: published_comment_def make_permlink_def)
qed

theorem permlink_same_second_counterexample:
  "(1762069512000::int) div 1000 = 1762069512999 div 1000
   \<and> make_permlink 1762069512000 = ''20251102t074512000z''
   \<and> make_permlink 1762069512999 = ''20251102t074512999z''
   \<and> make_permlink 1762069512000 \<noteq> make_permlink 1762069512999"
proof -
  have a: "make_permlink 1762069512000 = ''20251102t074512000z''"
    by code_simp
  have b: "make_permlink 1762069512999 = ''20251102t074512999z''"
    by code_simp
  show ?thesis unfolding a b by simp
qed

theorem permlink_of_submission_witness:
  "demo_ops \<in> set (submissions demo_props (handleComment demo_props demo_env demo_state))
   \<and> (\<exists>c rest. demo_ops = Comment c # rest
         \<and> permlink c = toLowerCase (remove_non_alnum (toISOString (now demo_env))))
   \<and> (1762069512345::int) div 1000 = 1762069512346 div 1000
   \<and> make_permlink 1762069512345 \<noteq> make_permlink 1762069512346"
proof -
  have m: "demo_ops \<in> set (submissions demo_props (handleComment demo_props demo_env demo_state))"
    by (simp only: demo_submissions list.set_intros)
  note inst = permlink_of_submission
    [where ops = demo_ops and p = demo_props and e = demo_env and s = demo_state
       and ?t1.0 = 1762069512345 and ?t2.0 = 1762069512346]
  have a: "\<exists>c rest. demo_ops = Comment c # rest
         \<and> permlink c = toLowerCase (remove_non_alnum (toISOString (now demo_env)))"
    using inst [THEN conjunct2, THEN conjunct2, THEN conjunct1, THEN mp, OF m] .
  have s: "(1762069512345::int) div 1000 = 1762069512346 div 1000" by simp
  have "make_permlink 1762069512345 = make_permlink 1762069512346
          \<longleftrightarrow> (1762069512345::int) = 1762069512346"
    using inst [THEN conjunct2, THEN conjunct2, THEN conjunct2, THEN conjunct2, THEN mp, OF s] .
  then have n: "make_permlink 1762069512345 \<noteq> make_permlink 1762069512346" by simp
  from m a s n show ?thesis by (intro conjI)
qed

section \<open>Releasing the object URL of the video\<close>

lemma extractThumbnail_snoc:
  "extractThumbnail f (evs @ [ev]) = on_video_event (extractThumbnail f evs) ev"
  by (simp add: extractThumbnail_def)

lemma extractThumbnail_released:
  assumes "promise (extractThumbnail f evs) \<noteq> None" and "Seeked NoContext \<notin> set evs"
  shows "RevokeObjectURL \<in> set (calls (extractThumbnail f evs))"
  using assms
proof (induction evs rule: rev_induct)
  case Nil
  then show ?case by (simp add: extractThumbnail_def)
next
  case (snoc ev evs)
  show ?case
  proof (cases ev)
    case LoadedData
    with snoc show ?thesis by (simp add: extractThumbnail_snoc)
  next
    case (Seeked run)
    with snoc.prems show ?thesis
      by (cases run) (simp_all add: extractThumbnail_snoc)
  next
    case VideoError
    then show ?thesis by (simp add: extractThumbnail_snoc)
  qed
qed

text \<open>
  C8. The object URL made for the video is to be released on every path that settles the
  promise. The listener of \<^verbatim>\<open>error\<close> and the callback of \<^verbatim>\<open>toBlob\<close> (with a blob or
  with \<^verbatim>\<open>null\<close>) release it; the path of a missing 2d context rejects and returns
  without the release.
\<close>

theorem extractThumbnail_without_context:
  "promise (extractThumbnail f [LoadedData, Seeked NoContext])
     = Some (Inl ''Failed to get canvas context'')
   \<and> CreateObjectURL f \<in> set (calls (extractThumbnail f [LoadedData, Seeked NoContext]))
   \<and> RevokeObjectURL \<notin> set (calls (extractThumbnail f [LoadedData, Seeked NoContext]))
   \<and> RevokeObjectURL \<in> set (calls (extractThumbnail f [VideoError]))
   \<and> RevokeObjectURL \<in> set (calls (extractThumbnail f [LoadedData, Seeked (ToBlob None)]))
   \<and> RevokeObjectURL \<in> set (calls (extractThumbnail f [LoadedData, Seeked (ToBlob (Some b))]))"
  by (simp add: extractThumbnail_def settle_def)

section \<open>The API credential\<close>

text \<open>
  C9. When \<^verbatim>\<open>NEXT_PUBLIC_3SPEAK_API_KEY\<close> is absent or empty, the upload of the video and
  the assignment of the thumbnail each fail at once with the error of the missing key:
  no upload is started and no request is sent, and the state is as it was.
\<close>

theorem credential_missing:
  assumes "\<not> truthy env_key"
  shows "uploadVideoToThreeSpeak env_key who ts f s
           = (Some (Inl ''3Speak API key not configured''), [], s)
     \<and> setVideoThumbnail env_key fetched videoId thumbnailUrl
           = (Inl ''3Speak API key not configured'', [])"
proof -
  from assms have "or_empty env_key = []"
    by (cases env_key) (simp_all add: truthy_def or_empty_def)
  then show ?thesis
    by (simp add: uploadVideoToThreeSpeak_def setVideoThumbnail_def)
qed

theorem credential_missing_witness:
  "\<not> truthy None
   \<and> uploadVideoToThreeSpeak None (Some ''alice'')
        \<lparr>progress_reports = [50, 100], embed_headers = [Some ''https://play.3speak.tv/embed?v=alice/abc''],
         tus_end = OnSuccess\<rparr>
        \<lparr>file_name = ''clip.mp4'', file_type = ''video/mp4'', file_bytes = []\<rparr> demo_state
       = (Some (Inl ''3Speak API key not configured''), [], demo_state)
   \<and> setVideoThumbnail None (Inr \<lparr>status = 200, statusText = ''OK'', body_text = Inr []\<rparr>)
        ''abc'' ''https://images.hive.blog/t.jpg''
       = (Inl ''3Speak API key not configured'', [])"
proof -
  have n: "\<not> truthy None" by (simp add: truthy_def)
  from credential_missing [OF n] n show ?thesis by simp
qed

section \<open>The thumbnail and its fallback store\<close>

lemma publish_thumbnail_result:
  "fst (publish_thumbnail pf e f thumbnailBlob) =
     (if isl (signature_result e) \<or> isl (upload_result e)
      then uploadThumbnailToIPFS pf (ipfs_fetch e) else upload_result e)"
  by (auto simp: publish_thumbnail_def Let_def split: sum.splits)

lemma publish_thumbnail_requests:
  "snd (publish_thumbnail pf e f thumbnailBlob) =
     [GetFileSignature (thumbnail_file f thumbnailBlob)]
       @ (if isl (signature_result e) then []
          else [UploadImage (thumbnail_file f thumbnailBlob) None])
       @ (if isl (signature_result e) \<or> isl (upload_result e)
          then [FetchIpfsAdd thumbnailBlob] else [])"
  by (simp add: publish_thumbnail_def Let_def split: sum.splits)

lemma uploadThumbnailToIPFS_url:
  assumes "fetched = Inr r" and "response_ok r" and "body_text r = Inr responseText"
    and "JSON_parse pf (last (split_on (CHR 0x0A) (trim responseText))) = Inr (JObj kvs)"
    and "map_of kvs ''Hash'' = Some (JStr h)"
  shows "uploadThumbnailToIPFS pf fetched = Inr (''https://ipfs.3speak.tv/ipfs/'' @ h)"
  using assms
  by (simp add: uploadThumbnailToIPFS_def Let_def get_Hash_def template_string_def)

lemma uploadThumbnailToIPFS_failures:
  "uploadThumbnailToIPFS pf (Inl err) = Inl err"
  "\<not> response_ok r \<Longrightarrow>
     uploadThumbnailToIPFS pf (Inr r)
       = Inl (''IPFS upload failed: '' @ decimal (status r) @ '' - '' @ statusText r)"
  "response_ok r \<Longrightarrow> body_text r = Inr responseText \<Longrightarrow>
     JSON_parse pf (last (split_on (CHR 0x0A) (trim responseText))) = Inl err \<Longrightarrow>
     uploadThumbnailToIPFS pf (Inr r) = Inl err"
  by (simp_all add: uploadThumbnailToIPFS_def Let_def)

lemma extractAndUploadThumbnail_blob:
  "promise (extractThumbnail f (video_events e)) = Some (Inr thumbnailBlob) \<Longrightarrow>
     fst (extractAndUploadThumbnail pf e f) = Some (fst (publish_thumbnail pf e f thumbnailBlob))"
  by (simp add: extractAndUploadThumbnail_def Let_def split: prod.splits)

text \<open>
  C5. Publishing a thumbnail blob first tries the signed upload to the image host (the
  signature, then the upload). When either step fails, and only then, it sends the blob
  once to the content-addressed store; there is no third attempt. The response of the
  store is split into lines, and the URL is \<^verbatim>\<open>https://ipfs.3speak.tv/ipfs/\<close> followed
  by the field \<^verbatim>\<open>Hash\<close> of the last line. A failure of the store (the request, a status
  that is not ok, a last line that does not parse) is the failure of the whole.
\<close>

theorem thumbnail_fallback:
  "fst (publish_thumbnail pf e f thumbnailBlob) =
     (if isl (signature_result e) \<or> isl (upload_result e)
      then uploadThumbnailToIPFS pf (ipfs_fetch e) else upload_result e)
   \<and> snd (publish_thumbnail pf e f thumbnailBlob) =
       [GetFileSignature (thumbnail_file f thumbnailBlob)]
         @ (if isl (signature_result e) then []
            else [UploadImage (thumbnail_file f thumbnailBlob) None])
         @ (if isl (signature_result e) \<or> isl (upload_result e)
            then [FetchIpfsAdd thumbnailBlob] else [])
   \<and> ((isl (signature_result e) \<or> isl (upload_result e)) \<and> ipfs_fetch e = Inr r
        \<and> response_ok r \<and> body_text r = Inr responseText
        \<and> JSON_parse pf (last (split_on (CHR 0x0A) (trim responseText))) = Inr (JObj kvs)
        \<and> map_of kvs ''Hash'' = Some (JStr h) \<longrightarrow>
        fst (publish_thumbnail pf e f thumbnailBlob) = Inr (''https://ipfs.3speak.tv/ipfs/'' @ h))
   \<and> ((isl (signature_result e) \<or> isl (upload_result e)) \<and> ipfs_fetch e = Inl err \<longrightarrow>
        fst (publish_thumbnail pf e f thumbnailBlob) = Inl err)
   \<and> ((isl (signature_result e) \<or> isl (upload_result e)) \<and> ipfs_fetch e = Inr r
        \<and> \<not> response_ok r \<longrightarrow>
        fst (publish_thumbnail pf e f thumbnailBlob)
          = Inl (''IPFS upload failed: '' @ decimal (status r) @ '' - '' @ statusText r))
   \<and> ((isl (signature_result e) \<or> isl (upload_result e)) \<and> ipfs_fetch e = Inr r
        \<and> response_ok r \<and> body_text r = Inr responseText
        \<and> JSON_parse pf (last (split_on (CHR 0x0A) (trim responseText))) = Inl err \<longrightarrow>
        fst (publish_thumbnail pf e f thumbnailBlob) = Inl err)
   \<and> (promise (extractThumbnail f (video_events e)) = Some (Inr thumbnailBlob) \<longrightarrow>
        fst (extractAndUploadThumbnail pf e f)
          = Some (fst (publish_thumbnail pf e f thumbnailBlob)))"
  using uploadThumbnailToIPFS_url
      [where fetched = "ipfs_fetch e" and r = r and responseText = responseText and pf = pf
         and kvs = kvs and h = h]
    uploadThumbnailToIPFS_failures(1) [where pf = pf and err = err]
    uploadThumbnailToIPFS_failures(2) [where pf = pf and r = r]
    uploadThumbnailToIPFS_failures(3)
      [where pf = pf and r = r and responseText = responseText and err = err]
    extractAndUploadThumbnail_blob
      [where f = f and e = e and thumbnailBlob = thumbnailBlob and pf = pf]
  by (simp add: publish_thumbnail_result publish_thumbnail_requests)

lemma demo_thumb_facts:
  "isl (signature_result demo_thumb_env) \<or> isl (upload_result demo_thumb_env)"
  "ipfs_fetch demo_thumb_env =
     Inr \<lparr>status = 200, statusText = ''OK'',
          body_text = Inr (''{}'' @ [CHR 0x0A] @ demo_ipfs_line @ [CHR 0x0A])\<rparr>"
  "response_ok \<lparr>status = 200, statusText = ''OK'',
                body_text = Inr (''{}'' @ [CHR 0x0A] @ demo_ipfs_line @ [CHR 0x0A])\<rparr>"
  "body_text \<lparr>status = 200, statusText = ''OK'',
              body_text = Inr (''{}'' @ [CHR 0x0A] @ demo_ipfs_line @ [CHR 0x0A])\<rparr>
     = Inr (''{}'' @ [CHR 0x0A] @ demo_ipfs_line @ [CHR 0x0A])"
  "map_of [(''Name'', JStr ''thumb.jpg''), (''Hash'', JStr ''QmXyz'')] ''Hash''
     = Some (JStr ''QmXyz'')"
  by (simp_all add: demo_thumb_env_def response_ok_def)

lemma demo_last_line:
  "JSON_parse demo_platform
     (last (split_on (CHR 0x0A) (trim (''{}'' @ [CHR 0x0A] @ demo_ipfs_line @ [CHR 0x0A]))))
     = Inr (JObj [(''Name'', JStr ''thumb.jpg''), (''Hash'', JStr ''QmXyz'')])"
  by code_simp

theorem thumbnail_fallback_witness:
  "(isl (signature_result demo_thumb_env) \<or> isl (upload_result demo_thumb_env))
   \<and> fst (publish_thumbnail demo_platform demo_thumb_env demo_clip ''JPEG'')
       = Inr ''https://ipfs.3speak.tv/ipfs/QmXyz''
   \<and> snd (publish_thumbnail demo_platform demo_thumb_env demo_clip ''JPEG'')
       = [GetFileSignature (thumbnail_file demo_clip ''JPEG''), FetchIpfsAdd ''JPEG'']
   \<and> ipfs_fetch (demo_thumb_env\<lparr>ipfs_fetch := Inl ''network down''\<rparr>) = Inl ''network down''
   \<and> fst (publish_thumbnail demo_platform (demo_thumb_env\<lparr>ipfs_fetch := Inl ''network down''\<rparr>)
          demo_clip ''JPEG'') = Inl ''network down''
   \<and> snd (publish_thumbnail demo_platform
          (demo_thumb_env\<lparr>signature_result := Inr ''sig''\<rparr>) demo_clip ''JPEG'')
       = [GetFileSignature (thumbnail_file demo_clip ''JPEG''),
          UploadImage (thumbnail_file demo_clip ''JPEG'') None]"
proof -
  note inst = thumbnail_fallback
    [where pf = demo_platform and e = demo_thumb_env and f = demo_clip
       and thumbnailBlob = "''JPEG''" and h = "''QmXyz''"
       and kvs = "[(''Name'', JStr ''thumb.jpg''), (''Hash'', JStr ''QmXyz'')]"
       and responseText = "''{}'' @ [CHR 0x0A] @ demo_ipfs_line @ [CHR 0x0A]"
       and r = "\<lparr>status = 200, statusText = ''OK'',
                 body_text = Inr (''{}'' @ [CHR 0x0A] @ demo_ipfs_line @ [CHR 0x0A])\<rparr>"]
  have a: "fst (publish_thumbnail demo_platform demo_thumb_env demo_clip ''JPEG'')
       = Inr (''https://ipfs.3speak.tv/ipfs/'' @ ''QmXyz'')"
    using inst [THEN conjunct2, THEN conjunct2, THEN conjunct1] demo_thumb_facts demo_last_line
    by blast
  have b: "snd (publish_thumbnail demo_platform demo_thumb_env demo_clip ''JPEG'')
       = [GetFileSignature (thumbnail_file demo_clip ''JPEG''), FetchIpfsAdd ''JPEG'']"
    using inst [THEN conjunct2, THEN conjunct1] demo_thumb_facts(1)
    by (simp add: demo_thumb_env_def)
  note down = thumbnail_fallback
    [where pf = demo_platform and e = "demo_thumb_env\<lparr>ipfs_fetch := Inl ''network down''\<rparr>"
       and f = demo_clip and thumbnailBlob = "''JPEG''" and err = "''network down''"]
  have c: "fst (publish_thumbnail demo_platform
                  (demo_thumb_env\<lparr>ipfs_fetch := Inl ''network down''\<rparr>) demo_clip ''JPEG'')
       = Inl ''network down''"
    using down [THEN conjunct2, THEN conjunct2, THEN conjunct2, THEN conjunct1]
    by (simp add: demo_thumb_env_def)
  note prim = thumbnail_fallback
    [where pf = demo_platform and e = "demo_thumb_env\<lparr>signature_result := Inr ''sig''\<rparr>"
       and f = demo_clip and thumbnailBlob = "''JPEG''"]
  have d: "snd (publish_thumbnail demo_platform
          (demo_thumb_env\<lparr>signature_result := Inr ''sig''\<rparr>) demo_clip ''JPEG'')
       = [GetFileSignature (thumbnail_file demo_clip ''JPEG''),
          UploadImage (thumbnail_file demo_clip ''JPEG'') None]"
    using prim [THEN conjunct2, THEN conjunct1]
    by (simp add: demo_thumb_env_def)
  from a b c d demo_thumb_facts(1) show ?thesis by simp
qed

section \<open>The video and its thumbnail\<close>

lemma progress_fold:
  "foldl (\<lambda>st pc. st\<lparr>videoUploadProgress := pc\<rparr>) s ps
     = s\<lparr>videoUploadProgress := last (videoUploadProgress s # ps)\<rparr>"
  by (induction ps arbitrary: s) simp_all

lemma uploadVideo_result_state_free:
  "fst (uploadVideoToThreeSpeak k who ts f s) = fst (uploadVideoToThreeSpeak k who ts f s')"
  "fst (snd (uploadVideoToThreeSpeak k who ts f s))
     = fst (snd (uploadVideoToThreeSpeak k who ts f s'))"
  by (simp_all add: uploadVideoToThreeSpeak_def Let_def split: tus_end.splits)

lemma uploadVideo_fulfilled:
  assumes "fst (uploadVideoToThreeSpeak k who ts f s) = Some (Inr url)"
  shows "or_empty k \<noteq> []"
    and "snd (snd (uploadVideoToThreeSpeak k who ts f s))
           = s\<lparr>videoUploadProgress := last (videoUploadProgress s # progress_reports ts)\<rparr>"
  using assms
  by (auto simp: uploadVideoToThreeSpeak_def Let_def progress_fold
        split: tus_end.splits if_splits)

lemma uploadVideo_rejected:
  assumes "fst (uploadVideoToThreeSpeak k who ts f s) = Some (Inl err)"
  shows "selectedVideo (snd (snd (uploadVideoToThreeSpeak k who ts f s))) = None
           \<or> snd (snd (uploadVideoToThreeSpeak k who ts f s))
                = s\<lparr>videoUploadProgress := last (videoUploadProgress s # progress_reports ts)\<rparr>
           \<or> snd (snd (uploadVideoToThreeSpeak k who ts f s)) = s"
    and "videoEmbedUrl (snd (snd (uploadVideoToThreeSpeak k who ts f s))) = videoEmbedUrl s"
  using assms
  by (auto simp: uploadVideoToThreeSpeak_def Let_def progress_fold
        split: tus_end.splits if_splits)

lemma uploadVideo_effects_quiet:
  "non_null (map alert_text (fst (snd (uploadVideoToThreeSpeak k who ts f s)))) = []"
  "non_null (map thumbnail_request (fst (snd (uploadVideoToThreeSpeak k who ts f s)))) = []"
  by (simp_all add: uploadVideoToThreeSpeak_def Let_def split: tus_end.splits)

lemma extractThumbnail_dom_quiet:
  "non_null (map alert_text (calls (extractThumbnail f evs))) = []
   \<and> non_null (map thumbnail_request (calls (extractThumbnail f evs))) = []"
proof (induction evs rule: rev_induct)
  case Nil
  show ?case by (simp add: extractThumbnail_def)
next
  case (snoc ev evs)
  show ?case
  proof (cases ev)
    case LoadedData
    with snoc show ?thesis by (simp add: extractThumbnail_snoc non_null_append)
  next
    case (Seeked run)
    with snoc show ?thesis
      by (cases run) (simp_all add: extractThumbnail_snoc non_null_append)
  next
    case VideoError
    with snoc show ?thesis by (simp add: extractThumbnail_snoc non_null_append)
  qed
qed

lemma publish_thumbnail_quiet:
  "non_null (map alert_text (snd (publish_thumbnail pf e f b))) = []
   \<and> non_null (map thumbnail_request (snd (publish_thumbnail pf e f b))) = []"
  by (simp add: publish_thumbnail_requests)

lemma extractAndUploadThumbnail_effects:
  "snd (extractAndUploadThumbnail pf e f) =
     calls (extractThumbnail f (video_events e))
       @ (case promise (extractThumbnail f (video_events e)) of
            Some (Inr thumbnailBlob) \<Rightarrow> snd (publish_thumbnail pf e f thumbnailBlob)
          | _ \<Rightarrow> [])"
  by (simp add: extractAndUploadThumbnail_def Let_def case_prod_unfold
        split: option.splits sum.splits)

lemma extractAndUploadThumbnail_quiet:
  "non_null (map alert_text (snd (extractAndUploadThumbnail pf e f))) = []
   \<and> non_null (map thumbnail_request (snd (extractAndUploadThumbnail pf e f))) = []"
  using extractThumbnail_dom_quiet [of f "video_events e"]
  by (simp add: extractAndUploadThumbnail_effects non_null_append publish_thumbnail_quiet
        split: option.splits sum.splits)

lemma extractVideoId_owner_id:
  assumes "URL_searchParams pf url = Inr params"
    and "map_of params ''v'' = Some (owner @ ''/'' @ ident)"
    and "CHR ''/'' \<notin> set owner" and "CHR ''/'' \<notin> set ident"
  shows "extractVideoId pf url = Some ident"
proof -
  have "split_on CHR ''/'' (owner @ ''/'' @ ident) = [owner, ident]"
    using assms(3,4) by (simp add: split_on_append_sep split_on_no_sep)
  with assms(1,2) show ?thesis
    by (simp add: extractVideoId_def Let_def truthy_def or_empty_def)
qed

lemma setVideoThumbnail_request:
  "or_empty k \<noteq> [] \<Longrightarrow>
     snd (setVideoThumbnail k fetched videoId thumbnailUrl)
       = [FetchSetThumbnail videoId thumbnailUrl (or_empty k)]"
  by (simp add: setVideoThumbnail_def Let_def)

lemma handleVideoSelection_unfold:
  assumes "uploadVideoToThreeSpeak (api_key e) who (tus e) f (video_selected f s) = (V, veff, s1)"
    and "extractAndUploadThumbnail pf (thumb e) f = (T, teff)"
  shows "handleVideoSelection pf e who f s =
     (case (V, T) of
        (Some (Inr value), Some thumbnail) \<Rightarrow>
          Some (s1\<lparr>videoEmbedUrl := Some value, thumbnailProcessing := False\<rparr>,
                veff @ teff
                  @ (case thumbnail of
                       Inr thumbnailUrl \<Rightarrow>
                         if truthy (extractVideoId pf value)
                         then snd (setVideoThumbnail (api_key e) (thumbnail_fetch e)
                                     (or_empty (extractVideoId pf value)) thumbnailUrl)
                         else []
                     | Inl reason \<Rightarrow> []))
      | (Some (Inl reason), Some thumbnail) \<Rightarrow>
          Some (s1\<lparr>selectedVideo := None, videoUploadProgress := 0,
                   thumbnailProcessing := False\<rparr>,
                veff @ teff @ [Alert ''Failed to upload video. Please try again.''])
      | _ \<Rightarrow> None)"
  using assms
  by (simp add: handleVideoSelection_def Let_def split: option.splits sum.splits)

lemma video_failed:
  assumes "fst (uploadVideoToThreeSpeak (api_key e) who (tus e) f (video_selected f s))
             = Some (Inl err)"
    and "fst (extractAndUploadThumbnail pf (thumb e) f) = Some t"
  shows "\<exists>s' effs. handleVideoSelection pf e who f s = Some (s', effs)
           \<and> selectedVideo s' = None \<and> videoUploadProgress s' = 0
           \<and> videoEmbedUrl s' = videoEmbedUrl s \<and> thumbnailProcessing s' = False
           \<and> non_null (map alert_text effs) = [''Failed to upload video. Please try again.'']
           \<and> non_null (map thumbnail_request effs) = []"
proof -
  obtain veff s1 where up:
    "uploadVideoToThreeSpeak (api_key e) who (tus e) f (video_selected f s)
       = (Some (Inl err), veff, s1)"
    using assms(1) by (cases "uploadVideoToThreeSpeak (api_key e) who (tus e) f (video_selected f s)") auto
  obtain teff where th: "extractAndUploadThumbnail pf (thumb e) f = (Some t, teff)"
    using assms(2) by (cases "extractAndUploadThumbnail pf (thumb e) f") auto
  have q: "non_null (map alert_text veff) = []" "non_null (map thumbnail_request veff) = []"
    using uploadVideo_effects_quiet [of "api_key e" who "tus e" f "video_selected f s"] up
    by simp_all
  have q': "non_null (map alert_text teff) = []" "non_null (map thumbnail_request teff) = []"
    using extractAndUploadThumbnail_quiet [of pf "thumb e" f] th by simp_all
  have v: "videoEmbedUrl s1 = videoEmbedUrl s"
    using uploadVideo_rejected(2) [OF assms(1)] up by (simp add: video_selected_def)
  show ?thesis
    using handleVideoSelection_unfold [OF up th] q q' v
    by (simp add: non_null_append)
qed

lemma thumbnail_failed:
  assumes "fst (uploadVideoToThreeSpeak (api_key e) who (tus e) f (video_selected f s))
             = Some (Inr url)"
    and "fst (extractAndUploadThumbnail pf (thumb e) f) = Some (Inl terr)"
  shows "\<exists>s' effs. handleVideoSelection pf e who f s = Some (s', effs)
           \<and> selectedVideo s' = Some f \<and> videoEmbedUrl s' = Some url
           \<and> thumbnailProcessing s' = False
           \<and> non_null (map alert_text effs) = []
           \<and> non_null (map thumbnail_request effs) = []"
proof -
  obtain veff s1 where up:
    "uploadVideoToThreeSpeak (api_key e) who (tus e) f (video_selected f s)
       = (Some (Inr url), veff, s1)"
    using assms(1) by (cases "uploadVideoToThreeSpeak (api_key e) who (tus e) f (video_selected f s)") auto
  obtain teff where th: "extractAndUploadThumbnail pf (thumb e) f = (Some (Inl terr), teff)"
    using assms(2) by (cases "extractAndUploadThumbnail pf (thumb e) f") auto
  have q: "non_null (map alert_text veff) = []" "non_null (map thumbnail_request veff) = []"
    using uploadVideo_effects_quiet [of "api_key e" who "tus e" f "video_selected f s"] up
    by simp_all
  have q': "non_null (map alert_text teff) = []" "non_null (map thumbnail_request teff) = []"
    using extractAndUploadThumbnail_quiet [of pf "thumb e" f] th by simp_all
  have v: "selectedVideo s1 = Some f"
    using uploadVideo_fulfilled(2) [OF assms(1)] up by (simp add: video_selected_def)
  show ?thesis
    using handleVideoSelection_unfold [OF up th] q q' v
    by (simp add: non_null_append)
qed

lemma both_succeeded:
  assumes "fst (uploadVideoToThreeSpeak (api_key e) who (tus e) f (video_selected f s))
             = Some (Inr url)"
    and "fst (extractAndUploadThumbnail pf (thumb e) f) = Some (Inr turl)"
    and "URL_searchParams pf url = Inr params"
    and "map_of params ''v'' = Some (owner @ ''/'' @ ident)"
    and "CHR ''/'' \<notin> set owner" and "CHR ''/'' \<notin> set ident" and "ident \<noteq> []"
  shows "\<exists>s' effs. handleVideoSelection pf e who f s = Some (s', effs)
           \<and> selectedVideo s' = Some f \<and> videoEmbedUrl s' = Some url
           \<and> thumbnailProcessing s' = False
           \<and> non_null (map alert_text effs) = []
           \<and> non_null (map thumbnail_request effs) = [(ident, turl, or_empty (api_key e))]"
proof -
  obtain veff s1 where up:
    "uploadVideoToThreeSpeak (api_key e) who (tus e) f (video_selected f s)
       = (Some (Inr url), veff, s1)"
    using assms(1) by (cases "uploadVideoToThreeSpeak (api_key e) who (tus e) f (video_selected f s)") auto
  obtain teff where th: "extractAndUploadThumbnail pf (thumb e) f = (Some (Inr turl), teff)"
    using assms(2) by (cases "extractAndUploadThumbnail pf (thumb e) f") auto
  have q: "non_null (map alert_text veff) = []" "non_null (map thumbnail_request veff) = []"
    using uploadVideo_effects_quiet [of "api_key e" who "tus e" f "video_selected f s"] up
    by simp_all
  have q': "non_null (map alert_text teff) = []" "non_null (map thumbnail_request teff) = []"
    using extractAndUploadThumbnail_quiet [of pf "thumb e" f] th by simp_all
  have v: "selectedVideo s1 = Some f"
    using uploadVideo_fulfilled(2) [OF assms(1)] up by (simp add: video_selected_def)
  have k: "or_empty (api_key e) \<noteq> []"
    using assms(1) by (rule uploadVideo_fulfilled(1))
  have i: "extractVideoId pf url = Some ident"
    using assms(3-6) by (rule extractVideoId_owner_id)
  have r: "snd (setVideoThumbnail (api_key e) (thumbnail_fetch e) ident turl)
       = [FetchSetThumbnail ident turl (or_empty (api_key e))]"
    using k by (rule setVideoThumbnail_request)
  show ?thesis
    using handleVideoSelection_unfold [OF up th] q q' v i r assms(7)
    by (simp add: non_null_append truthy_def or_empty_def)
qed

lemma settled_iff:
  "handleVideoSelection pf e who f s = None \<longleftrightarrow>
     fst (uploadVideoToThreeSpeak (api_key e) who (tus e) f (video_selected f s)) = None
     \<or> fst (extractAndUploadThumbnail pf (thumb e) f) = None"
proof -
  obtain V veff s1 where up:
    "uploadVideoToThreeSpeak (api_key e) who (tus e) f (video_selected f s) = (V, veff, s1)"
    by (cases "uploadVideoToThreeSpeak (api_key e) who (tus e) f (video_selected f s)")
  obtain T teff where th: "extractAndUploadThumbnail pf (thumb e) f = (T, teff)"
    by (cases "extractAndUploadThumbnail pf (thumb e) f")
  show ?thesis
    using handleVideoSelection_unfold [OF up th] up th
    by (auto split: option.splits sum.splits)
qed

lemma both_started:
  assumes "handleVideoSelection pf e who f s = Some (s', effs)"
  shows "\<exists>rest. effs =
           fst (snd (uploadVideoToThreeSpeak (api_key e) who (tus e) f (video_selected f s)))
             @ snd (extractAndUploadThumbnail pf (thumb e) f) @ rest"
    and "thumbnailProcessing s' = False"
proof -
  obtain V veff s1 where up:
    "uploadVideoToThreeSpeak (api_key e) who (tus e) f (video_selected f s) = (V, veff, s1)"
    by (cases "uploadVideoToThreeSpeak (api_key e) who (tus e) f (video_selected f s)")
  obtain T teff where th: "extractAndUploadThumbnail pf (thumb e) f = (T, teff)"
    by (cases "extractAndUploadThumbnail pf (thumb e) f")
  show "\<exists>rest. effs =
           fst (snd (uploadVideoToThreeSpeak (api_key e) who (tus e) f (video_selected f s)))
             @ snd (extractAndUploadThumbnail pf (thumb e) f) @ rest"
    using handleVideoSelection_unfold [OF up th] up th assms
    by (auto split: option.splits sum.splits)
  show "thumbnailProcessing s' = False"
    using handleVideoSelection_unfold [OF up th] assms
    by (auto split: option.splits sum.splits)
qed

text \<open>
  The embed reference that \<^verbatim>\<open>handleVideoSelection\<close> stores is never the empty string.
\<close>

lemma stored_embed_reference:
  assumes "handleVideoSelection pf e who f s = Some (s', effs)"
  shows "videoEmbedUrl s' = videoEmbedUrl s \<or> truthy (videoEmbedUrl s')"
proof -
  obtain V veff s1 where up:
    "uploadVideoToThreeSpeak (api_key e) who (tus e) f (video_selected f s) = (V, veff, s1)"
    by (cases "uploadVideoToThreeSpeak (api_key e) who (tus e) f (video_selected f s)")
  obtain T teff where th: "extractAndUploadThumbnail pf (thumb e) f = (T, teff)"
    by (cases "extractAndUploadThumbnail pf (thumb e) f")
  have ne: "url \<noteq> []" if "V = Some (Inr url)" for url
    using up that
    by (auto simp: uploadVideoToThreeSpeak_def Let_def truthy_def or_empty_def
          split: tus_end.splits if_splits option.splits)
  have keep: "videoEmbedUrl s1 = videoEmbedUrl s" if "V = Some (Inl err)" for err
    using uploadVideo_rejected(2) [of "api_key e" who "tus e" f "video_selected f s" err] up that
    by (simp add: video_selected_def)
  show ?thesis
    using handleVideoSelection_unfold [OF up th] assms ne keep
    by (auto simp: truthy_def split: option.splits sum.splits)
qed

lemma no_identifier_no_request:
  assumes "fst (uploadVideoToThreeSpeak (api_key e) who (tus e) f (video_selected f s))
             = Some (Inr url)"
    and "fst (extractAndUploadThumbnail pf (thumb e) f) = Some (Inr turl)"
    and "\<not> truthy (extractVideoId pf url)"
  shows "\<exists>s' effs. handleVideoSelection pf e who f s = Some (s', effs)
           \<and> selectedVideo s' = Some f \<and> videoEmbedUrl s' = Some url
           \<and> non_null (map alert_text effs) = []
           \<and> non_null (map thumbnail_request effs) = []"
proof -
  obtain veff s1 where up:
    "uploadVideoToThreeSpeak (api_key e) who (tus e) f (video_selected f s)
       = (Some (Inr url), veff, s1)"
    using assms(1) by (cases "uploadVideoToThreeSpeak (api_key e) who (tus e) f (video_selected f s)") auto
  obtain teff where th: "extractAndUploadThumbnail pf (thumb e) f = (Some (Inr turl), teff)"
    using assms(2) by (cases "extractAndUploadThumbnail pf (thumb e) f") auto
  have q: "non_null (map alert_text veff) = []" "non_null (map thumbnail_request veff) = []"
    using uploadVideo_effects_quiet [of "api_key e" who "tus e" f "video_selected f s"] up
    by simp_all
  have q': "non_null (map alert_text teff) = []" "non_null (map thumbnail_request teff) = []"
    using extractAndUploadThumbnail_quiet [of pf "thumb e" f] th by simp_all
  have v: "selectedVideo s1 = Some f"
    using uploadVideo_fulfilled(2) [OF assms(1)] up by (simp add: video_selected_def)
  show ?thesis
    using handleVideoSelection_unfold [OF up th] q q' v assms(3)
    by (simp add: non_null_append)
qed

text \<open>
  C3. For a selected video the upload and the thumbnail pipeline are both started, and
  the handler decides only when both have settled; the requests of each are made whatever
  the other comes to. When the upload fails, whatever the thumbnail pipeline gave, there
  is one alert, the video is unselected with progress 0, and no thumbnail request is
  sent. When the upload succeeds and the thumbnail pipeline fails, the video stays
  attached with its embed reference, with no alert and no thumbnail request. When both
  succeed and the parameter \<^verbatim>\<open>v\<close> of the embed URL is \<^verbatim>\<open>owner/id\<close>, one request
  associates the thumbnail URL with \<^verbatim>\<open>id\<close>, and whatever that request comes to the
  video stays attached with no alert.
\<close>

theorem video_and_thumbnail:
  "let video = fst (uploadVideoToThreeSpeak (api_key e) who (tus e) f (video_selected f s));
       thumbnail = fst (extractAndUploadThumbnail pf (thumb e) f);
       started = fst (snd (uploadVideoToThreeSpeak (api_key e) who (tus e) f
                             (video_selected f s)))
                   @ snd (extractAndUploadThumbnail pf (thumb e) f);
       outcome = handleVideoSelection pf e who f s
   in (outcome = None \<longleftrightarrow> video = None \<or> thumbnail = None)
    \<and> (\<forall>s' effs. outcome = Some (s', effs) \<longrightarrow>
          (\<exists>rest. effs = started @ rest) \<and> thumbnailProcessing s' = False)
    \<and> (\<forall>err t. video = Some (Inl err) \<and> thumbnail = Some t \<longrightarrow>
          (\<exists>s' effs. outcome = Some (s', effs)
             \<and> selectedVideo s' = None \<and> videoUploadProgress s' = 0
             \<and> videoEmbedUrl s' = videoEmbedUrl s \<and> thumbnailProcessing s' = False
             \<and> non_null (map alert_text effs) = [''Failed to upload video. Please try again.'']
             \<and> non_null (map thumbnail_request effs) = []))
    \<and> (\<forall>url terr. video = Some (Inr url) \<and> thumbnail = Some (Inl terr) \<longrightarrow>
          (\<exists>s' effs. outcome = Some (s', effs)
             \<and> selectedVideo s' = Some f \<and> videoEmbedUrl s' = Some url
             \<and> thumbnailProcessing s' = False
             \<and> non_null (map alert_text effs) = []
             \<and> non_null (map thumbnail_request effs) = []))
    \<and> (\<forall>url turl params owner ident.
          video = Some (Inr url) \<and> thumbnail = Some (Inr turl)
          \<and> URL_searchParams pf url = Inr params
          \<and> map_of params ''v'' = Some (owner @ ''/'' @ ident)
          \<and> CHR ''/'' \<notin> set owner \<and> CHR ''/'' \<notin> set ident \<and> ident \<noteq> [] \<longrightarrow>
          (\<exists>s' effs. outcome = Some (s', effs)
             \<and> selectedVideo s' = Some f \<and> videoEmbedUrl s' = Some url
             \<and> thumbnailProcessing s' = False
             \<and> non_null (map alert_text effs) = []
             \<and> non_null (map thumbnail_request effs)
                 = [(ident, turl, or_empty (api_key e))]))"
  unfolding Let_def
proof (intro conjI allI impI)
  show "handleVideoSelection pf e who f s = None \<longleftrightarrow>
     fst (uploadVideoToThreeSpeak (api_key e) who (tus e) f (video_selected f s)) = None
     \<or> fst (extractAndUploadThumbnail pf (thumb e) f) = None"
    by (rule settled_iff)
next
  fix s' effs
  assume "handleVideoSelection pf e who f s = Some (s', effs)"
  then show "\<exists>rest. effs =
           (fst (snd (uploadVideoToThreeSpeak (api_key e) who (tus e) f (video_selected f s)))
             @ snd (extractAndUploadThumbnail pf (thumb e) f)) @ rest"
    and "thumbnailProcessing s' = False"
    using both_started [of pf e who f s s' effs] by simp_all
next
  fix err t
  assume "fst (uploadVideoToThreeSpeak (api_key e) who (tus e) f (video_selected f s))
            = Some (Inl err) \<and> fst (extractAndUploadThumbnail pf (thumb e) f) = Some t"
  then show "\<exists>s' effs. handleVideoSelection pf e who f s = Some (s', effs)
             \<and> selectedVideo s' = None \<and> videoUploadProgress s' = 0
             \<and> videoEmbedUrl s' = videoEmbedUrl s \<and> thumbnailProcessing s' = False
             \<and> non_null (map alert_text effs) = [''Failed to upload video. Please try again.'']
             \<and> non_null (map thumbnail_request effs) = []"
    using video_failed [of e who f s err pf t] by blast
next
  fix url terr
  assume "fst (uploadVideoToThreeSpeak (api_key e) who (tus e) f (video_selected f s))
            = Some (Inr url)
          \<and> fst (extractAndUploadThumbnail pf (thumb e) f) = Some (Inl terr)"
  then show "\<exists>s' effs. handleVideoSelection pf e who f s = Some (s', effs)
             \<and> selectedVideo s' = Some f \<and> videoEmbedUrl s' = Some url
             \<and> thumbnailProcessing s' = False
             \<and> non_null (map alert_text effs) = []
             \<and> non_null (map thumbnail_request effs) = []"
    using thumbnail_failed [of e who f s url pf terr] by blast
next
  fix url turl params owner ident
  assume "fst (uploadVideoToThreeSpeak (api_key e) who (tus e) f (video_selected f s))
            = Some (Inr url)
          \<and> fst (extractAndUploadThumbnail pf (thumb e) f) = Some (Inr turl)
          \<and> URL_searchParams pf url = Inr params
          \<and> map_of params ''v'' = Some (owner @ ''/'' @ ident)
          \<and> CHR ''/'' \<notin> set owner \<and> CHR ''/'' \<notin> set ident \<and> ident \<noteq> []"
  then show "\<exists>s' effs. handleVideoSelection pf e who f s = Some (s', effs)
             \<and> selectedVideo s' = Some f \<and> videoEmbedUrl s' = Some url
             \<and> thumbnailProcessing s' = False
             \<and> non_null (map alert_text effs) = []
             \<and> non_null (map thumbnail_request effs)
                 = [(ident, turl, or_empty (api_key e))]"
    using both_succeeded [of e who f s url pf turl params owner ident] by blast
qed

lemma demo_video_results:
  "fst (uploadVideoToThreeSpeak (api_key demo_video_env) (Some ''alice'') (tus demo_video_env)
          demo_clip (video_selected demo_clip demo_idle))
     = Some (Inr ''https://play.3speak.tv/embed?v=alice/i2znmy5h'')"
  "fst (extractAndUploadThumbnail demo_platform (thumb demo_video_env) demo_clip)
     = Some (Inr ''https://ipfs.3speak.tv/ipfs/QmXyz'')"
  "URL_searchParams demo_platform ''https://play.3speak.tv/embed?v=alice/i2znmy5h''
     = Inr [(''v'', ''alice/i2znmy5h'')]"
  "map_of [(''v'', ''alice/i2znmy5h'')] ''v'' = Some (''alice'' @ ''/'' @ ''i2znmy5h'')"
  "CHR ''/'' \<notin> set ''alice''" "CHR ''/'' \<notin> set ''i2znmy5h''" "''i2znmy5h'' \<noteq> []"
  "or_empty (api_key demo_video_env) = ''key-123''"
  by code_simp+

lemma demo_failed_video_results:
  "fst (uploadVideoToThreeSpeak (api_key demo_failed_video_env) (Some ''alice'')
          (tus demo_failed_video_env) demo_clip (video_selected demo_clip demo_idle))
     = Some (Inl ''offline'')"
  "fst (extractAndUploadThumbnail demo_platform (thumb demo_failed_video_env) demo_clip)
     = Some (Inr ''https://ipfs.3speak.tv/ipfs/QmXyz'')"
  by code_simp+

lemma demo_failed_thumb_results:
  "fst (uploadVideoToThreeSpeak (api_key demo_failed_thumb_env) (Some ''alice'')
          (tus demo_failed_thumb_env) demo_clip (video_selected demo_clip demo_idle))
     = Some (Inr ''https://play.3speak.tv/embed?v=alice/i2znmy5h'')"
  "fst (extractAndUploadThumbnail demo_platform (thumb demo_failed_thumb_env) demo_clip)
     = Some (Inl ''Failed to get canvas context'')"
  by code_simp+

theorem video_and_thumbnail_witness:
  "fst (uploadVideoToThreeSpeak (api_key demo_video_env) (Some ''alice'') (tus demo_video_env)
          demo_clip (video_selected demo_clip demo_idle))
     = Some (Inr ''https://play.3speak.tv/embed?v=alice/i2znmy5h'')
   \<and> fst (extractAndUploadThumbnail demo_platform (thumb demo_video_env) demo_clip)
       = Some (Inr ''https://ipfs.3speak.tv/ipfs/QmXyz'')
   \<and> \<not> response_ok \<lparr>status = 500, statusText = ''Internal Server Error'', body_text = Inr []\<rparr>
   \<and> (\<exists>s' effs.
         handleVideoSelection demo_platform demo_video_env (Some ''alice'') demo_clip demo_idle
           = Some (s', effs)
         \<and> selectedVideo s' = Some demo_clip
         \<and> videoEmbedUrl s' = Some ''https://play.3speak.tv/embed?v=alice/i2znmy5h''
         \<and> non_null (map alert_text effs) = []
         \<and> non_null (map thumbnail_request effs)
             = [(''i2znmy5h'', ''https://ipfs.3speak.tv/ipfs/QmXyz'', ''key-123'')])
   \<and> fst (uploadVideoToThreeSpeak (api_key demo_failed_video_env) (Some ''alice'')
          (tus demo_failed_video_env) demo_clip (video_selected demo_clip demo_idle))
       = Some (Inl ''offline'')
   \<and> (\<exists>s' effs.
         handleVideoSelection demo_platform demo_failed_video_env (Some ''alice'') demo_clip
           demo_idle = Some (s', effs)
         \<and> selectedVideo s' = None \<and> videoUploadProgress s' = 0
         \<and> non_null (map alert_text effs) = [''Failed to upload video. Please try again.'']
         \<and> non_null (map thumbnail_request effs) = [])
   \<and> fst (extractAndUploadThumbnail demo_platform (thumb demo_failed_thumb_env) demo_clip)
       = Some (Inl ''Failed to get canvas context'')
   \<and> (\<exists>s' effs.
         handleVideoSelection demo_platform demo_failed_thumb_env (Some ''alice'') demo_clip
           demo_idle = Some (s', effs)
         \<and> selectedVideo s' = Some demo_clip
         \<and> videoEmbedUrl s' = Some ''https://play.3speak.tv/embed?v=alice/i2znmy5h''
         \<and> non_null (map alert_text effs) = []
         \<and> non_null (map thumbnail_request effs) = [])"
proof -
  note ok = video_and_thumbnail
    [where pf = demo_platform and e = demo_video_env and who = "Some ''alice''"
       and f = demo_clip and s = demo_idle, unfolded Let_def]
  have a: "\<exists>s' effs.
         handleVideoSelection demo_platform demo_video_env (Some ''alice'') demo_clip demo_idle
           = Some (s', effs)
         \<and> selectedVideo s' = Some demo_clip
         \<and> videoEmbedUrl s' = Some ''https://play.3speak.tv/embed?v=alice/i2znmy5h''
         \<and> non_null (map alert_text effs) = []
         \<and> non_null (map thumbnail_request effs)
             = [(''i2znmy5h'', ''https://ipfs.3speak.tv/ipfs/QmXyz'', ''key-123'')]"
    using ok [THEN conjunct2, THEN conjunct2, THEN conjunct2, THEN conjunct2, THEN spec,
        THEN spec, THEN spec, THEN spec, THEN spec,
        of "''https://play.3speak.tv/embed?v=alice/i2znmy5h''"
          "''https://ipfs.3speak.tv/ipfs/QmXyz''" "[(''v'', ''alice/i2znmy5h'')]"
          "''alice''" "''i2znmy5h''"]
      demo_video_results
    by (simp only: simp_thms) blast
  note ko = video_and_thumbnail
    [where pf = demo_platform and e = demo_failed_video_env and who = "Some ''alice''"
       and f = demo_clip and s = demo_idle, unfolded Let_def]
  have b: "\<exists>s' effs.
         handleVideoSelection demo_platform demo_failed_video_env (Some ''alice'') demo_clip
           demo_idle = Some (s', effs)
         \<and> selectedVideo s' = None \<and> videoUploadProgress s' = 0
         \<and> non_null (map alert_text effs) = [''Failed to upload video. Please try again.'']
         \<and> non_null (map thumbnail_request effs) = []"
    using ko [THEN conjunct2, THEN conjunct2, THEN conjunct1, THEN spec, THEN spec,
        of "''offline''" "Inr ''https://ipfs.3speak.tv/ipfs/QmXyz''"]
      demo_failed_video_results
    by (simp only: simp_thms) blast
  note nt = video_and_thumbnail
    [where pf = demo_platform and e = demo_failed_thumb_env and who = "Some ''alice''"
       and f = demo_clip and s = demo_idle, unfolded Let_def]
  have c: "\<exists>s' effs.
         handleVideoSelection demo_platform demo_failed_thumb_env (Some ''alice'') demo_clip
           demo_idle = Some (s', effs)
         \<and> selectedVideo s' = Some demo_clip
         \<and> videoEmbedUrl s' = Some ''https://play.3speak.tv/embed?v=alice/i2znmy5h''
         \<and> non_null (map alert_text effs) = []
         \<and> non_null (map thumbnail_request effs) = []"
    using nt [THEN conjunct2, THEN conjunct2, THEN conjunct2, THEN conjunct1, THEN spec,
        THEN spec, of "''https://play.3speak.tv/embed?v=alice/i2znmy5h''"
          "''Failed to get canvas context''"]
      demo_failed_thumb_results
    by (simp only: simp_thms) blast
  have r: "\<not> response_ok \<lparr>status = 500, statusText = ''Internal Server Error'',
                          body_text = Inr []\<rparr>"
    by (simp add: response_ok_def)
  from demo_video_results(1,2) r a demo_failed_video_results(1) b demo_failed_thumb_results(2) c
  show ?thesis by (intro conjI)
qed

end
